theory Spec2Isabelle
  imports
    Main
    "HOL-Library.AList"
    "HOL-Library.Char_ord"
    "HOL-Library.List_Lexorder"
    "HOL-Library.Multiset"
    "HOL-Library.Sublist"
begin

section \<open>JavaScript values, strings and Maps\<close>

text \<open>
  A field that the script reads as \<^verbatim>\<open>T | null\<close>, or that can be \<^verbatim>\<open>undefined\<close> at run
  time because it comes out of \<^verbatim>\<open>any\<close>-typed metadata, is a value of \<open>'a js\<close>.
  \<open>NaN\<close> is the number that \<^verbatim>\<open>undefined * n\<close> evaluates to. Numbers are integers
  (map dimensions, wind speeds, counts); strings are lists of \<open>char\<close>, the characters
  U+0000 to U+00FF.
\<close>

datatype 'a js = Undefined | Null | NaN | Def 'a

text \<open>JavaScript's \<^verbatim>\<open>===\<close> on such values: \<^verbatim>\<open>NaN\<close> is not equal to itself.\<close>

definition strictEq :: "'a js \<Rightarrow> 'a js \<Rightarrow> bool" where
  "strictEq a b = (a = b \<and> a \<noteq> NaN)"

text \<open>
  A JavaScript \<^verbatim>\<open>Map\<close> is an association list in insertion order with distinct keys:
  \<^verbatim>\<open>get\<close> is \<^const>\<open>map_of\<close>, \<^verbatim>\<open>set\<close> is \<^const>\<open>AList.update\<close> (an existing key keeps
  its position, a new key goes to the end), \<^verbatim>\<open>delete\<close> is \<^const>\<open>AList.delete\<close>.
\<close>

type_synonym ('k, 'v) jsmap = "('k \<times> 'v) list"

definition mhas :: "('k, 'v) jsmap \<Rightarrow> 'k \<Rightarrow> bool" where
  "mhas m k = (map_of m k \<noteq> None)"

definition mvalues :: "('k, 'v) jsmap \<Rightarrow> 'v list" where
  "mvalues m = map snd m"

text \<open>\<^verbatim>\<open>new Map(entries)\<close>: the entries are set one after the other.\<close>

definition newMap :: "('k \<times> 'v) list \<Rightarrow> ('k, 'v) jsmap" where
  "newMap entries = foldl (\<lambda>m (k, v). AList.update k v m) [] entries"

subsection \<open>Case conversion and the slug\<close>

definition code :: "char \<Rightarrow> nat" where
  "code c = of_char c"

text \<open>
  \<^verbatim>\<open>String.prototype.toLowerCase\<close> on the characters of \<open>char\<close>: \<^verbatim>\<open>A\<close> to \<^verbatim>\<open>Z\<close> and the capital
  letters U+00C0 to U+00DE (U+00D7, the multiplication sign, is none) move up by 32, every
  other character is its own lowercase form.
\<close>

definition toLowerChar :: "char \<Rightarrow> char" where
  "toLowerChar c =
     (if (65 \<le> code c \<and> code c \<le> 90) \<or> (192 \<le> code c \<and> code c \<le> 222 \<and> code c \<noteq> 215)
      then char_of (code c + 32) else c)"

definition toLowerCase :: "string \<Rightarrow> string" where
  "toLowerCase s = map toLowerChar s"

text \<open>\<^verbatim>\<open>String.prototype.toUpperCase\<close> on ASCII strings: \<^verbatim>\<open>a\<close> to \<^verbatim>\<open>z\<close> move down by 32.\<close>

definition toUpperChar :: "char \<Rightarrow> char" where
  "toUpperChar c = (if 97 \<le> code c \<and> code c \<le> 122 then char_of (code c - 32) else c)"

definition toUpperCase :: "string \<Rightarrow> string" where
  "toUpperCase s = map toUpperChar s"

text \<open>The character class \<^verbatim>\<open>[. _]\<close> of the first \<^verbatim>\<open>replace\<close>.\<close>

definition isSeparator :: "char \<Rightarrow> bool" where
  "isSeparator c = (c = CHR ''.'' \<or> c = CHR '' '' \<or> c = CHR ''_'')"

text \<open>The character class \<^verbatim>\<open>[a-z0-9-]\<close> whose complement the second \<^verbatim>\<open>replace\<close> deletes.\<close>

definition isSlugChar :: "char \<Rightarrow> bool" where
  "isSlugChar c =
     ((97 \<le> code c \<and> code c \<le> 122) \<or> (48 \<le> code c \<and> code c \<le> 57) \<or> c = CHR ''-'')"

text \<open>
  \<^verbatim>\<open>name.toLowerCase().replace(/[. _]/g, '-').replace(/[^a-z0-9-]/g, '')\<close>, first with
  the case mapping as a parameter \<open>lower\<close>, of which the two \<^verbatim>\<open>replace\<close> calls know nothing,
  then with \<open>toLowerCase\<close> for it.
\<close>

definition slugVia :: "(string \<Rightarrow> string) \<Rightarrow> string \<Rightarrow> string" where
  "slugVia lower name =
     filter isSlugChar (map (\<lambda>c. if isSeparator c then CHR ''-'' else c) (lower name))"

definition slugFromName :: "string \<Rightarrow> string" where
  "slugFromName name = slugVia toLowerCase name"

text \<open>
  The slug as the specification words it: lowercase, every maximal run of
  non-alphanumeric characters becomes one hyphen, and such runs at either end are
  dropped. \<open>slugRuns\<close> carries a flag saying that a run is pending.
\<close>

definition isAlnumLower :: "char \<Rightarrow> bool" where
  "isAlnumLower c = ((97 \<le> code c \<and> code c \<le> 122) \<or> (48 \<le> code c \<and> code c \<le> 57))"

fun slugRuns :: "bool \<Rightarrow> string \<Rightarrow> string \<Rightarrow> string" where
  "slugRuns pending acc [] = acc"
| "slugRuns pending acc (c # cs) =
     (if isAlnumLower c
      then slugRuns False (acc @ (if pending \<and> acc \<noteq> [] then ''-'' else []) @ [c]) cs
      else slugRuns True acc cs)"

definition slugify_spec :: "string \<Rightarrow> string" where
  "slugify_spec name = slugRuns False [] (toLowerCase name)"

section \<open>Image hashes\<close>

text \<open>
  \<open>getImageHash\<close> of the class \<^verbatim>\<open>ImageHashesCache\<close>: the empty digest for \<^verbatim>\<open>null\<close> and
  for the empty URL, the cached digest when there is one, and otherwise the digest of
  the bytes behind the URL (\<open>fetchDigest\<close>, the download and SHA-256), which is stored.
\<close>

type_synonym hashCache = "(string, string) jsmap"

definition getImageHash ::
  "(string \<Rightarrow> string) \<Rightarrow> hashCache \<Rightarrow> string js \<Rightarrow> string \<times> hashCache" where
  "getImageHash fetchDigest cache url =
     (case url of
        Def u \<Rightarrow>
          if u = [] then ([], cache)
          else (case map_of cache u of
                  Some d \<Rightarrow> (d, cache)
                | None \<Rightarrow> (fetchDigest u, AList.update u (fetchDigest u) cache))
      | _ \<Rightarrow> ([], cache))"

text \<open>
  What a cache and the network together answer for a non-empty URL, and the digest
  \<open>getImageHash\<close> returns as a function of it. A call only adds the answer it gave to the
  cache (\<open>getImageHash_digest\<close>, \<open>getImageHash_stable\<close> below), so the functions that
  compare and pick images take the digest table \<open>d\<close> and do not thread the cache.
\<close>

definition digestVia :: "(string \<Rightarrow> string) \<Rightarrow> hashCache \<Rightarrow> string \<Rightarrow> string" where
  "digestVia fetchDigest cache u =
     (case map_of cache u of Some d \<Rightarrow> d | None \<Rightarrow> fetchDigest u)"

definition imageHash :: "(string \<Rightarrow> string) \<Rightarrow> string js \<Rightarrow> string" where
  "imageHash d url = (case url of Def u \<Rightarrow> if u = [] then [] else d u | _ \<Rightarrow> [])"

definition sameImage :: "(string \<Rightarrow> string) \<Rightarrow> string js \<Rightarrow> string js \<Rightarrow> bool" where
  "sameImage d url1 url2 = (imageHash d url1 = imageHash d url2)"

definition sameImages :: "(string \<Rightarrow> string) \<Rightarrow> string list \<Rightarrow> string list \<Rightarrow> bool" where
  "sameImages d urls1 urls2 =
     (let h1 = map (\<lambda>u. imageHash d (Def u)) urls1;
          h2 = map (\<lambda>u. imageHash d (Def u)) urls2
      in if length urls1 \<noteq> length urls2 then False
         else list_all2 (=) (sort h1) (sort h2))"

record WebflowImageRef =
  fileId :: string
  url :: string

definition pickImage :: "(string \<Rightarrow> string) \<Rightarrow> string \<Rightarrow> WebflowImageRef option \<Rightarrow> string" where
  "pickImage d u base =
     (case base of
        Some b \<Rightarrow> if sameImage d (Def u) (Def (url b)) then fileId b else u
      | None \<Rightarrow> u)"

definition pickImages ::
  "(string \<Rightarrow> string) \<Rightarrow> string list \<Rightarrow> WebflowImageRef list option \<Rightarrow> string list" where
  "pickImages d urls base =
     (let h = map (\<lambda>u. (u, imageHash d (Def u))) urls;
          hBaseEntries =
            map (\<lambda>i. (imageHash d (Def (url i)), fileId i))
              (case base of None \<Rightarrow> [] | Some bs \<Rightarrow> bs);
          hBase = newMap hBaseEntries
      in map (\<lambda>(u, hash).
                case map_of hBase hash of
                  Some baseFileId \<Rightarrow> if baseFileId \<noteq> [] then baseFileId else u
                | None \<Rightarrow> u) h)"

text \<open>
  The assets of the base list whose digest is that of the desired URL, in the order of
  the list: what the claim about list images speaks of.
\<close>

definition digestMatches ::
  "(string \<Rightarrow> string) \<Rightarrow> WebflowImageRef list \<Rightarrow> string \<Rightarrow> WebflowImageRef list" where
  "digestMatches d bs u =
     filter (\<lambda>b. imageHash d (Def (url b)) = imageHash d (Def u)) bs"

section \<open>Errors, remote calls and sequencing\<close>

text \<open>
  Every \<^verbatim>\<open>throw\<close>, failed \<^verbatim>\<open>assert\<close> and rejected remote call of the script is a value
  of \<open>error\<close>. \<open>MissingDownloadUrl springName\<close>, \<open>MissingValue springName key\<close> and
  \<open>MissingRef field ref\<close> are the three \<^verbatim>\<open>new Error(...)\<close> of the script with the data
  their messages print; \<open>TypeError\<close> is a property read on \<^verbatim>\<open>undefined\<close>.
\<close>

datatype error =
    MissingDownloadUrl string
  | MissingValue string string
  | MissingRef string string
  | AssertionError
  | TypeError
  | RemoteError

text \<open>
  An action runs on a state and either completes or stops with an error; the state it
  leaves is kept either way (what was written before a \<^verbatim>\<open>throw\<close> stays written).
\<close>

type_synonym 's act = "'s \<Rightarrow> error option \<times> 's"

definition andThen :: "'s act \<Rightarrow> 's act \<Rightarrow> 's act" where
  "andThen p q s = (case p s of (Some e, s') \<Rightarrow> (Some e, s') | (None, s') \<Rightarrow> q s')"

text \<open>A \<^verbatim>\<open>for (const x of xs)\<close> loop whose body can throw.\<close>

fun forEach :: "('a \<Rightarrow> 's act) \<Rightarrow> 'a list \<Rightarrow> 's act" where
  "forEach f [] s = (None, s)"
| "forEach f (x # xs) s = andThen (f x) (forEach f xs) s"

section \<open>The destination's items\<close>

text \<open>
  The field data of an item as the Webflow API returns it (\<^verbatim>\<open>WebflowMapFieldsRead\<close>;
  the items of the tag and terrain collections carry \<^verbatim>\<open>name\<close> and \<^verbatim>\<open>slug\<close> only).
  \<open>None\<close> is a field that is absent.
\<close>

record CollectionItemFieldData =
  r_name :: string
  r_slug :: string
  r_rowyid :: "string option"
  r_minimap :: "WebflowImageRef option"
  r_minimap_photo_thumb :: "WebflowImageRef option"
  r_downloadurl :: "string option"
  r_width :: "int option"
  r_height :: "int option"
  r_mapsize :: "int option"
  r_title :: "string option"
  r_description :: "string option"
  r_author :: "string option"
  r_bg_image :: "WebflowImageRef option"
  r_perspective_shot :: "WebflowImageRef option"
  r_more_images :: "WebflowImageRef list option"
  r_wind_min :: "int option"
  r_wind_max :: "int option"
  r_tidal_strength :: "int option"
  r_team_count :: "int option"
  r_max_players :: "int option"
  r_mini_map :: "WebflowImageRef option"
  r_height_map :: "WebflowImageRef option"
  r_metal_map :: "WebflowImageRef option"
  r_game_tags_ref_2 :: "string list option"
  r_terrain_types :: "string list option"

record CollectionItem =
  itemId :: string
  lastPublished :: "string option"
  lastUpdated :: "string option"
  fieldData :: "CollectionItemFieldData option"

text \<open>The field data the script writes (\<^verbatim>\<open>WebflowMapFieldsWrite\<close>): an image field is a string, a URL or a file handle.\<close>

record WebflowMapFieldsWrite =
  w_name :: string
  w_slug :: string
  w_rowyid :: string
  w_minimap :: string
  w_minimap_photo_thumb :: string
  w_downloadurl :: "string js"
  w_width :: "int js"
  w_height :: "int js"
  w_mapsize :: "int js"
  w_title :: "string js"
  w_description :: "string js"
  w_author :: string
  w_bg_image :: "string js"
  w_perspective_shot :: "string js"
  w_more_images :: "string list"
  w_wind_min :: "int js"
  w_wind_max :: "int js"
  w_tidal_strength :: "int js"
  w_team_count :: int
  w_max_players :: int
  w_mini_map :: string
  w_height_map :: string
  w_metal_map :: string
  w_game_tags_ref_2 :: "string list"
  w_terrain_types :: "string list"

text \<open>
  The mutating calls of the Webflow client, each with the collection it addresses. A
  remote answers a call with an item, or fails (\<open>None\<close>); its answer may depend on every
  call made before.
\<close>

datatype coll = MapsCollection | MapTagsCollection | MapTerrainsCollection

datatype fieldsWrite = TagFields string string | MapFields WebflowMapFieldsWrite

datatype call =
    CreateItem coll fieldsWrite
  | UpdateItem coll string fieldsWrite
  | DeleteItem coll string
  | PublishItem coll "string list"

type_synonym remote = "call list \<Rightarrow> call \<Rightarrow> CollectionItem option"

subsection \<open>Reading helpers\<close>

definition reqR :: "'a option \<Rightarrow> 'a \<Rightarrow> 'a" where
  "reqR n def = (case n of None \<Rightarrow> def | Some v \<Rightarrow> v)"

definition optR :: "'a option \<Rightarrow> 'a js" where
  "optR n = (case n of None \<Rightarrow> Null | Some v \<Rightarrow> Def v)"

definition reqRNum :: "int option \<Rightarrow> int" where
  "reqRNum n = reqR n (- 1)"

definition reqRStr :: "string option \<Rightarrow> string" where
  "reqRStr n = reqR n []"

definition reqRArr :: "'a list option \<Rightarrow> 'a list" where
  "reqRArr n = reqR n []"

definition isSameRefs :: "string list \<Rightarrow> string list \<Rightarrow> bool" where
  "isSameRefs a b = (length a = length b \<and> list_all (\<lambda>(v, w). v = w) (zip a b))"

section \<open>Tags and terrains\<close>

record IWebsiteItem =
  name :: string
  slug :: string

record IWebflowItem = IWebsiteItem +
  item :: CollectionItem

definition isWebsiteMapTagEqual ::
  "'a IWebsiteItem_scheme \<Rightarrow> 'b IWebsiteItem_scheme \<Rightarrow> bool" where
  "isWebsiteMapTagEqual a b = (name a = name b \<and> slug a = slug b)"

definition isWebsiteMapTerrainEqual ::
  "'a IWebsiteItem_scheme \<Rightarrow> 'b IWebsiteItem_scheme \<Rightarrow> bool" where
  "isWebsiteMapTerrainEqual a b = (name a = name b \<and> slug a = slug b)"

text \<open>
  The constructor of \<^verbatim>\<open>WebflowMapTag\<close> (and of \<^verbatim>\<open>WebflowMapTerrain\<close>, which is the same):
  reading \<^verbatim>\<open>o.name\<close> on absent field data is a \<open>TypeError\<close>.
\<close>

definition WebflowMapTag_new :: "CollectionItem \<Rightarrow> error + IWebflowItem" where
  "WebflowMapTag_new i =
     (case fieldData i of
        None \<Rightarrow> Inl TypeError
      | Some o' \<Rightarrow> Inr \<lparr>name = r_name o', slug = r_slug o', item = i\<rparr>)"

definition WebflowMapTag_generateFields :: "'a IWebsiteItem_scheme \<Rightarrow> fieldsWrite" where
  "WebflowMapTag_generateFields tag = TagFields (name tag) (slug tag)"

section \<open>Maps\<close>

record WebsiteMapInfo =
  mapName :: string
  rowyId :: string
  minimapUrl :: string
  minimapThumbUrl :: string
  downloadUrl :: "string js"
  width :: "int js"
  height :: "int js"
  mapSize :: "int js"
  title :: "string js"
  description :: "string js"
  author :: string
  bgImageUrl :: "string js"
  perspectiveShotUrl :: "string js"
  moreImagesUrl :: "string list"
  windMin :: "int js"
  windMax :: "int js"
  tidalStrength :: "int js"
  teamCount :: int
  maxPlayers :: int
  textureMapUrl :: string
  heightMapUrl :: string
  metalMapUrl :: string
  mapTags :: "string list"
  mapTerrains :: "string list"

record WebflowMapInfo = WebsiteMapInfo +
  mapItem :: CollectionItem

definition isWebflowMapInfoEqual ::
  "(string \<Rightarrow> string) \<Rightarrow> 'a WebsiteMapInfo_scheme \<Rightarrow> 'b WebsiteMapInfo_scheme \<Rightarrow> bool" where
  "isWebflowMapInfoEqual d a b =
     (let allImagesSame = list_all (\<lambda>x. x)
            [sameImage d (Def (minimapUrl a)) (Def (minimapUrl b)),
             sameImage d (Def (minimapThumbUrl a)) (Def (minimapThumbUrl b)),
             sameImage d (bgImageUrl a) (bgImageUrl b),
             sameImage d (perspectiveShotUrl a) (perspectiveShotUrl b),
             sameImages d (moreImagesUrl a) (moreImagesUrl b),
             sameImage d (Def (textureMapUrl a)) (Def (textureMapUrl b)),
             sameImage d (Def (heightMapUrl a)) (Def (heightMapUrl b)),
             sameImage d (Def (metalMapUrl a)) (Def (metalMapUrl b))]
      in allImagesSame \<and>
         mapName a = mapName b \<and>
         rowyId a = rowyId b \<and>
         strictEq (downloadUrl a) (downloadUrl b) \<and>
         strictEq (width a) (width b) \<and>
         strictEq (height a) (height b) \<and>
         strictEq (mapSize a) (mapSize b) \<and>
         strictEq (title a) (title b) \<and>
         strictEq (description a) (description b) \<and>
         author a = author b \<and>
         strictEq (windMin a) (windMin b) \<and>
         strictEq (windMax a) (windMax b) \<and>
         strictEq (tidalStrength a) (tidalStrength b) \<and>
         teamCount a = teamCount b \<and>
         maxPlayers a = maxPlayers b \<and>
         isSameRefs (mapTags a) (mapTags b) \<and>
         isSameRefs (mapTerrains a) (mapTerrains b))"

text \<open>
  The constructor of \<^verbatim>\<open>WebflowMapInfo\<close>: \<^verbatim>\<open>assert(item.fieldData)\<close>, then one read per
  field through \<open>reqR\<close> or \<open>optR\<close>.
\<close>

definition WebflowMapInfo_new :: "CollectionItem \<Rightarrow> error + WebflowMapInfo" where
  "WebflowMapInfo_new i =
     (case fieldData i of
        None \<Rightarrow> Inl AssertionError
      | Some o' \<Rightarrow> Inr
          \<lparr>mapName = r_name o',
           rowyId = reqRStr (r_rowyid o'),
           minimapUrl = reqRStr (map_option url (r_minimap o')),
           minimapThumbUrl = reqRStr (map_option url (r_minimap_photo_thumb o')),
           downloadUrl = Def (reqRStr (r_downloadurl o')),
           width = Def (reqRNum (r_width o')),
           height = Def (reqRNum (r_height o')),
           mapSize = Def (reqRNum (r_mapsize o')),
           title = optR (r_title o'),
           description = optR (r_description o'),
           author = reqRStr (r_author o'),
           bgImageUrl = optR (map_option url (r_bg_image o')),
           perspectiveShotUrl = optR (map_option url (r_perspective_shot o')),
           moreImagesUrl = reqRArr (map_option (map url) (r_more_images o')),
           windMin = Def (reqRNum (r_wind_min o')),
           windMax = Def (reqRNum (r_wind_max o')),
           tidalStrength = optR (r_tidal_strength o'),
           teamCount = reqRNum (r_team_count o'),
           maxPlayers = reqRNum (r_max_players o'),
           textureMapUrl = reqRStr (map_option url (r_mini_map o')),
           heightMapUrl = reqRStr (map_option url (r_height_map o')),
           metalMapUrl = reqRStr (map_option url (r_metal_map o')),
           mapTags = reqRArr (r_game_tags_ref_2 o'),
           mapTerrains = reqRArr (r_terrain_types o'),
           mapItem = i\<rparr>)"

text \<open>
  \<^verbatim>\<open>base?.item.fieldData[f]\<close>: the field \<open>f\<close> of the base item, absent without a base.
  A \<^verbatim>\<open>WebflowMapInfo\<close> always has field data (its constructor asserts it).
\<close>

definition baseField ::
  "WebflowMapInfo option \<Rightarrow> (CollectionItemFieldData \<Rightarrow> 'a option) \<Rightarrow> 'a option" where
  "baseField base f =
     (case base of
        None \<Rightarrow> None
      | Some b \<Rightarrow> (case fieldData (mapItem b) of None \<Rightarrow> None | Some o' \<Rightarrow> f o'))"

text \<open>\<^verbatim>\<open>u ? await pickImage(u, b) : null\<close>\<close>

definition pickOptImage ::
  "(string \<Rightarrow> string) \<Rightarrow> string js \<Rightarrow> WebflowImageRef option \<Rightarrow> string js" where
  "pickOptImage d u b =
     (case u of Def v \<Rightarrow> if v \<noteq> [] then Def (pickImage d v b) else Null | _ \<Rightarrow> Null)"

definition WebflowMapInfo_generateFields ::
  "(string \<Rightarrow> string) \<Rightarrow> 'a WebsiteMapInfo_scheme \<Rightarrow> WebflowMapInfo option \<Rightarrow>
     WebflowMapFieldsWrite" where
  "WebflowMapInfo_generateFields d info base =
     \<lparr>w_name = mapName info,
      w_slug = slugFromName (mapName info),
      w_rowyid = rowyId info,
      w_minimap = pickImage d (minimapUrl info) (baseField base r_minimap),
      w_minimap_photo_thumb =
        pickImage d (minimapThumbUrl info) (baseField base r_minimap_photo_thumb),
      w_downloadurl = downloadUrl info,
      w_width = width info,
      w_height = height info,
      w_mapsize = mapSize info,
      w_title = title info,
      w_description = description info,
      w_author = author info,
      w_bg_image = pickOptImage d (bgImageUrl info) (baseField base r_bg_image),
      w_perspective_shot =
        pickOptImage d (perspectiveShotUrl info) (baseField base r_perspective_shot),
      w_more_images = pickImages d (moreImagesUrl info) (baseField base r_more_images),
      w_wind_min = windMin info,
      w_wind_max = windMax info,
      w_tidal_strength = tidalStrength info,
      w_team_count = teamCount info,
      w_max_players = maxPlayers info,
      w_mini_map = pickImage d (textureMapUrl info) (baseField base r_mini_map),
      w_height_map = pickImage d (heightMapUrl info) (baseField base r_height_map),
      w_metal_map = pickImage d (metalMapUrl info) (baseField base r_metal_map),
      w_game_tags_ref_2 = mapTags info,
      w_terrain_types = mapTerrains info\<rparr>"

section \<open>Building the records to publish\<close>

text \<open>
  A row of the map list (the fields \<open>buildWebflowInfo\<close> reads; an uploaded file is its
  storage path \<^verbatim>\<open>ref\<close>), the CDN record of a map, and the metadata of a map with
  \<^verbatim>\<open>location.bucket\<close> and \<^verbatim>\<open>location.path\<close>.
\<close>

record MapInfo =
  row_springName :: string
  row_displayName :: string
  row_author :: string
  row_title :: "string option"
  row_description :: "string option"
  row_photo :: "string list"
  row_backgroundImage :: "string list"
  row_perspectiveShot :: "string list"
  row_inGameShots :: "string list"
  row_teamCount :: int
  row_playerCount :: int

record MapCDNInfo =
  mirrors :: "string list"

record MapMeta =
  extractedFiles :: "string list"
  location_bucket :: string
  location_path :: string

text \<open>
  What \<^verbatim>\<open>getDerivedInfo\<close> returns. It is computed from \<^verbatim>\<open>any\<close>-typed metadata, so a
  number may be \<open>Undefined\<close> at run time.
\<close>

record DerivedInfo =
  d_width :: "int js"
  d_height :: "int js"
  d_windMin :: "int js"
  d_windMax :: "int js"
  d_tidalStrength :: "int js"
  d_tags :: "string list"
  d_terrainOrdered :: "string list"

text \<open>\<^verbatim>\<open>a * b\<close> on numbers that may be missing: \<^verbatim>\<open>null\<close> counts as 0, \<^verbatim>\<open>undefined\<close> gives \<^verbatim>\<open>NaN\<close>.\<close>

definition jsTimes :: "int js \<Rightarrow> int js \<Rightarrow> int js" where
  "jsTimes a b =
     (let num = (\<lambda>x. case x of Def n \<Rightarrow> Some n | Null \<Rightarrow> Some 0 | _ \<Rightarrow> None)
      in case (num a, num b) of (Some m, Some n) \<Rightarrow> Def (m * n) | _ \<Rightarrow> NaN)"

text \<open>\<^verbatim>\<open>s || null\<close> on an optional string and \<^verbatim>\<open>x ?? null\<close>.\<close>

definition orNull :: "string option \<Rightarrow> string js" where
  "orNull s = (case s of None \<Rightarrow> Null | Some v \<Rightarrow> if v = [] then Null else Def v)"

definition nullish :: "'a js \<Rightarrow> 'a js" where
  "nullish x = (case x of Undefined \<Rightarrow> Null | _ \<Rightarrow> x)"

text \<open>\<^verbatim>\<open>xs[0]\<close>\<close>

definition first :: "'a list \<Rightarrow> 'a js" where
  "first xs = (case xs of [] \<Rightarrow> Undefined | x # _ \<Rightarrow> Def x)"

definition imagorUrlBase :: string where
  "imagorUrlBase = ''https://maps-metadata.beyondallreason.dev/i/''"

definition rowyBucket :: string where
  "rowyBucket = ''rowy-1f075.appspot.com''"

definition imagorUrl :: "(string \<Rightarrow> string) \<Rightarrow> string \<Rightarrow> string \<Rightarrow> string \<Rightarrow> string" where
  "imagorUrl encodeURI directive bucket p = imagorUrlBase @ directive @ ''/'' @ bucket @ ''/'' @ encodeURI p"

definition requiredFiles :: "string list" where
  "requiredFiles = [''height.png'', ''metal.png'', ''texture.jpg'']"

text \<open>The inner loop over \<^verbatim>\<open>derivedInfo.tags\<close>: \<^verbatim>\<open>allMapTags.set(slug, {name: tag.toUpperCase(), slug})\<close>.\<close>

definition addTag :: "(string, IWebsiteItem) jsmap \<Rightarrow> string \<Rightarrow> (string, IWebsiteItem) jsmap" where
  "addTag allMapTags tag =
     AList.update (slugFromName tag) \<lparr>name = toUpperCase tag, slug = slugFromName tag\<rparr> allMapTags"

definition addTags :: "(string, IWebsiteItem) jsmap \<Rightarrow> string list \<Rightarrow> (string, IWebsiteItem) jsmap" where
  "addTags allMapTags tags = foldl addTag allMapTags tags"

text \<open>
  The sanity check \<^verbatim>\<open>v === undefined || v === ''\<close> over \<^verbatim>\<open>Object.entries(info)\<close>, in the
  order of the object literal: each key with whether its value is rejected.
\<close>

definition missingStr :: "string \<Rightarrow> bool" where
  "missingStr v = (v = [])"

definition missingJsStr :: "string js \<Rightarrow> bool" where
  "missingJsStr v = (v = Undefined \<or> v = Def [])"

definition missingJs :: "'a js \<Rightarrow> bool" where
  "missingJs v = (v = Undefined)"

definition infoEntries :: "WebsiteMapInfo \<Rightarrow> (string \<times> bool) list" where
  "infoEntries info =
     [(''name'', missingStr (mapName info)),
      (''rowyId'', missingStr (rowyId info)),
      (''minimapUrl'', missingStr (minimapUrl info)),
      (''minimapThumbUrl'', missingStr (minimapThumbUrl info)),
      (''downloadUrl'', missingJsStr (downloadUrl info)),
      (''width'', missingJs (width info)),
      (''height'', missingJs (height info)),
      (''mapSize'', missingJs (mapSize info)),
      (''title'', missingJsStr (title info)),
      (''description'', missingJsStr (description info)),
      (''author'', missingStr (author info)),
      (''bgImageUrl'', missingJsStr (bgImageUrl info)),
      (''perspectiveShotUrl'', missingJsStr (perspectiveShotUrl info)),
      (''moreImagesUrl'', False),
      (''windMin'', missingJs (windMin info)),
      (''windMax'', missingJs (windMax info)),
      (''tidalStrength'', missingJs (tidalStrength info)),
      (''teamCount'', False),
      (''maxPlayers'', False),
      (''textureMapUrl'', missingStr (textureMapUrl info)),
      (''heightMapUrl'', missingStr (heightMapUrl info)),
      (''metalMapUrl'', missingStr (metalMapUrl info)),
      (''mapTags'', False),
      (''mapTerrains'', False)]"

definition missingKey :: "WebsiteMapInfo \<Rightarrow> string option" where
  "missingKey info = map_option fst (find snd (infoEntries info))"

text \<open>The object literal \<^verbatim>\<open>info\<close>, given the first photo.\<close>

definition makeInfo ::
  "(string \<Rightarrow> string) \<Rightarrow> string \<Rightarrow> MapInfo \<Rightarrow> MapCDNInfo \<Rightarrow> MapMeta \<Rightarrow> DerivedInfo \<Rightarrow> string \<Rightarrow>
     WebsiteMapInfo" where
  "makeInfo encodeURI rowyId' m mi meta derivedInfo photo0 =
     \<lparr>mapName = row_displayName m,
      rowyId = rowyId',
      minimapUrl =
        imagorUrl encodeURI ''fit-in/1024x1024/filters:format(webp):quality(85)'' rowyBucket photo0,
      minimapThumbUrl =
        imagorUrl encodeURI ''fit-in/640x640/filters:format(webp):quality(85)'' rowyBucket photo0,
      downloadUrl = first (mirrors mi),
      width = d_width derivedInfo,
      height = d_height derivedInfo,
      mapSize = jsTimes (d_width derivedInfo) (d_height derivedInfo),
      title = orNull (row_title m),
      description = orNull (row_description m),
      author = row_author m,
      bgImageUrl =
        (case row_backgroundImage m of
           [] \<Rightarrow> Null
         | r # _ \<Rightarrow>
             Def (imagorUrl encodeURI ''fit-in/2250x/filters:format(webp):quality(85)'' rowyBucket r)),
      perspectiveShotUrl =
        (case row_perspectiveShot m of
           [] \<Rightarrow> Null
         | r # _ \<Rightarrow>
             Def (imagorUrl encodeURI ''fit-in/2250x/filters:format(webp):quality(85)'' rowyBucket r)),
      moreImagesUrl =
        map (imagorUrl encodeURI ''fit-in/2250x/filters:format(webp):quality(85)'' rowyBucket)
          (row_inGameShots m),
      windMin = d_windMin derivedInfo,
      windMax = d_windMax derivedInfo,
      tidalStrength = nullish (d_tidalStrength derivedInfo),
      teamCount = row_teamCount m,
      maxPlayers = row_playerCount m,
      textureMapUrl =
        imagorUrl encodeURI ''fit-in/1024x1024/filters:format(webp):quality(85)''
          (location_bucket meta) (location_path meta @ ''/texture.jpg''),
      heightMapUrl =
        imagorUrl encodeURI ''fit-in/1024x1024/filters:format(webp):quality(85)''
          (location_bucket meta) (location_path meta @ ''/height.png''),
      metalMapUrl =
        imagorUrl encodeURI ''fit-in/1024x1024/filters:format(png)''
          (location_bucket meta) (location_path meta @ ''/metal.png''),
      mapTags = d_tags derivedInfo,
      mapTerrains = d_terrainOrdered derivedInfo\<rparr>"

text \<open>
  The body of the loop of \<open>buildWebflowInfo\<close> for one row, on the two Maps being built.
\<close>

type_synonym built = "(string, WebsiteMapInfo) jsmap \<times> (string, IWebsiteItem) jsmap"

definition buildOne ::
  "(string \<Rightarrow> string) \<Rightarrow> (MapInfo \<Rightarrow> MapMeta \<Rightarrow> DerivedInfo) \<Rightarrow>
     (string, MapCDNInfo) jsmap \<Rightarrow> (string, MapMeta) jsmap \<Rightarrow> string \<times> MapInfo \<Rightarrow> built act" where
  "buildOne encodeURI getDerivedInfo cdnInfo mapsMetadata row s =
     (case (row, s) of ((rowyId', m), (mapInfo, allMapTags)) \<Rightarrow>
        (case map_of cdnInfo (row_springName m) of
           None \<Rightarrow> (Some (MissingDownloadUrl (row_springName m)), s)
         | Some mi \<Rightarrow>
             (case map_of mapsMetadata rowyId' of
                None \<Rightarrow> (Some TypeError, s)
              | Some meta \<Rightarrow>
                  if \<not> list_all (\<lambda>img. img \<in> set (extractedFiles meta)) requiredFiles
                  then (Some AssertionError, s)
                  else
                    (let derivedInfo = getDerivedInfo m meta;
                         allMapTags' = addTags allMapTags (d_tags derivedInfo)
                     in case row_photo m of
                          [] \<Rightarrow> (Some TypeError, (mapInfo, allMapTags'))
                        | photo0 # _ \<Rightarrow>
                            (let info = makeInfo encodeURI rowyId' m mi meta derivedInfo photo0
                             in case missingKey info of
                                  Some k \<Rightarrow>
                                    (Some (MissingValue (row_springName m) k),
                                     (mapInfo, allMapTags'))
                                | None \<Rightarrow>
                                    (None, (AList.update rowyId' info mapInfo, allMapTags')))))))"

definition buildWebflowInfo ::
  "(string \<Rightarrow> string) \<Rightarrow> (MapInfo \<Rightarrow> MapMeta \<Rightarrow> DerivedInfo) \<Rightarrow>
     (string \<times> MapInfo) list \<Rightarrow> (string, MapCDNInfo) jsmap \<Rightarrow> (string, MapMeta) jsmap \<Rightarrow>
     error + built" where
  "buildWebflowInfo encodeURI getDerivedInfo maps cdnInfo mapsMetadata =
     (case forEach (buildOne encodeURI getDerivedInfo cdnInfo mapsMetadata) maps ([], []) of
        (Some e, _) \<Rightarrow> Inl e
      | (None, r) \<Rightarrow> Inr r)"

text \<open>The terrain vocabulary: \<^verbatim>\<open>$defs.terrainType.enum\<close> of the map list schema.\<close>

definition terrainTypeEnum :: "string list" where
  "terrainTypeEnum =
     [''lava'', ''ice'', ''acidic'', ''alien'', ''asteroid'', ''space'', ''desert'', ''forests'',
      ''grassy'', ''tropical'', ''swamp'', ''jungle'', ''wasteland'', ''metal'', ''industrial'',
      ''ruins'', ''sea'', ''water'', ''island'', ''shallows'', ''chokepoints'', ''asymmetrical'',
      ''flat'', ''hills'']"

definition getRowyMapTerrains :: "(string, IWebsiteItem) jsmap" where
  "getRowyMapTerrains = newMap (map (\<lambda>t. (t, \<lparr>name = t, slug = t\<rparr>)) terrainTypeEnum)"

section \<open>Reading the destination\<close>

text \<open>
  The three \<open>getAllWebflow...\<close> functions, from the items the paginated listing returned.
\<close>

fun mapM :: "('a \<Rightarrow> error + 'b) \<Rightarrow> 'a list \<Rightarrow> error + 'b list" where
  "mapM f [] = Inr []"
| "mapM f (x # xs) =
     (case f x of
        Inl e \<Rightarrow> Inl e
      | Inr y \<Rightarrow> (case mapM f xs of Inl e \<Rightarrow> Inl e | Inr ys \<Rightarrow> Inr (y # ys)))"

fun showNat :: "nat \<Rightarrow> string" where
  "showNat n =
     (if n < 10 then [char_of (48 + n)] else showNat (n div 10) @ [char_of (48 + n mod 10)])"

text \<open>The loop of \<open>getAllWebflowMaps\<close> that keys the maps by \<^verbatim>\<open>rowyId\<close>, with its counter \<^verbatim>\<open>dupId\<close>.\<close>

definition indexMap ::
  "(string, WebflowMapInfo) jsmap \<times> nat \<Rightarrow> WebflowMapInfo \<Rightarrow> (string, WebflowMapInfo) jsmap \<times> nat" where
  "indexMap s m =
     (case s of (res, dupId) \<Rightarrow>
        if mhas res (rowyId m)
        then (let m' = m\<lparr>rowyId := rowyId m @ ''-bad'' @ showNat dupId\<rparr>
              in (AList.update (rowyId m') m' res, dupId + 1))
        else (AList.update (rowyId m) m res, dupId))"

definition getAllWebflowMaps :: "CollectionItem list \<Rightarrow> error + (string, WebflowMapInfo) jsmap" where
  "getAllWebflowMaps items =
     (case mapM WebflowMapInfo_new items of
        Inl e \<Rightarrow> Inl e
      | Inr maps \<Rightarrow> Inr (fst (foldl indexMap ([], 0) maps)))"

definition getAllWebflowMapTags :: "CollectionItem list \<Rightarrow> error + (string, IWebflowItem) jsmap" where
  "getAllWebflowMapTags items =
     (case mapM WebflowMapTag_new items of
        Inl e \<Rightarrow> Inl e
      | Inr tags \<Rightarrow> Inr (newMap (map (\<lambda>tag. (slug tag, tag)) tags)))"

definition getAllWebflowMapTerrains :: "CollectionItem list \<Rightarrow> error + (string, IWebflowItem) jsmap" where
  "getAllWebflowMapTerrains items =
     (case mapM WebflowMapTag_new items of
        Inl e \<Rightarrow> Inl e
      | Inr terrains \<Rightarrow> Inr (newMap (map (\<lambda>t. (slug t, t)) terrains)))"

section \<open>Resolving tag and terrain references\<close>

datatype refField = FieldMapTags | FieldMapTerrains

definition fieldName :: "refField \<Rightarrow> string" where
  "fieldName f = (case f of FieldMapTags \<Rightarrow> ''mapTags'' | FieldMapTerrains \<Rightarrow> ''mapTerrains'')"

definition getField :: "refField \<Rightarrow> WebsiteMapInfo \<Rightarrow> string list" where
  "getField f info = (case f of FieldMapTags \<Rightarrow> mapTags info | FieldMapTerrains \<Rightarrow> mapTerrains info)"

definition setField :: "refField \<Rightarrow> string list \<Rightarrow> WebsiteMapInfo \<Rightarrow> WebsiteMapInfo" where
  "setField f v info =
     (case f of FieldMapTags \<Rightarrow> info\<lparr>mapTags := v\<rparr> | FieldMapTerrains \<Rightarrow> info\<lparr>mapTerrains := v\<rparr>)"

definition resolveRef ::
  "refField \<Rightarrow> (string, IWebflowItem) jsmap \<Rightarrow> bool \<Rightarrow> string \<Rightarrow> error + string" where
  "resolveRef f refs dryRun r =
     (case map_of refs r of
        None \<Rightarrow> if dryRun then Inr r else Inl (MissingRef (fieldName f) r)
      | Some t \<Rightarrow> Inr (itemId (item t)))"

definition resolveOne ::
  "refField \<Rightarrow> (string, IWebflowItem) jsmap \<Rightarrow> bool \<Rightarrow> string \<times> WebsiteMapInfo \<Rightarrow>
     error + string \<times> WebsiteMapInfo" where
  "resolveOne f refs dryRun e =
     (case mapM (resolveRef f refs dryRun) (getField f (snd e)) of
        Inl err \<Rightarrow> Inl err
      | Inr ids \<Rightarrow> Inr (fst e, setField f ids (snd e)))"

definition resolveItemRefsInMapInfos ::
  "(string, WebsiteMapInfo) jsmap \<Rightarrow> refField \<Rightarrow> (string, IWebflowItem) jsmap \<Rightarrow> bool \<Rightarrow>
     error + (string, WebsiteMapInfo) jsmap" where
  "resolveItemRefsInMapInfos mapInfos f refs dryRun = mapM (resolveOne f refs dryRun) mapInfos"

section \<open>Synchronising a collection\<close>

text \<open>
  A collection being synchronised: the \<^verbatim>\<open>dest\<close> Map and the mutating calls made so far.
  \<open>limiter.schedule\<close> runs one call at a time, so the calls form a sequence; a call is
  recorded whether the remote accepts it or not.
\<close>

type_synonym 'w syncSt = "(string, 'w) jsmap \<times> call list"

text \<open>
  After a create or an update of a tag or terrain:
  \<^verbatim>\<open>assert(item.fieldData!.slug!); dest.set(item.fieldData!.slug!, new webflowItemType(item))\<close>.
\<close>

definition storeItem :: "remote \<Rightarrow> call \<Rightarrow> IWebflowItem syncSt act" where
  "storeItem resp c s =
     (case s of (dest, log) \<Rightarrow>
        (case resp log c of
           None \<Rightarrow> (Some RemoteError, (dest, log @ [c]))
         | Some i \<Rightarrow>
             (case fieldData i of
                None \<Rightarrow> (Some TypeError, (dest, log @ [c]))
              | Some o' \<Rightarrow>
                  if r_slug o' = [] then (Some AssertionError, (dest, log @ [c]))
                  else (case WebflowMapTag_new i of
                          Inl e \<Rightarrow> (Some e, (dest, log @ [c]))
                        | Inr w \<Rightarrow> (None, (AList.update (r_slug o') w dest, log @ [c]))))))"

text \<open>
  The body of the loop of \<open>syncCollectionToWebflowAdditions\<close>. Both callers pass
  \<^verbatim>\<open>WebflowMapTag\<close> as the item type.
\<close>

definition additionStep ::
  "remote \<Rightarrow> (IWebsiteItem \<Rightarrow> IWebflowItem \<Rightarrow> bool) \<Rightarrow> coll \<Rightarrow> bool \<Rightarrow> IWebsiteItem \<Rightarrow>
     IWebflowItem syncSt act" where
  "additionStep resp equals collection dryRun x s =
     (case map_of (fst s) (slug x) of
        None \<Rightarrow>
          (let fields = WebflowMapTag_generateFields x
           in if \<not> dryRun then storeItem resp (CreateItem collection fields) s
              else (None, s))
      | Some webflowTag \<Rightarrow>
          if \<not> equals x webflowTag
          then (let fields = WebflowMapTag_generateFields x
                in if \<not> dryRun
                   then storeItem resp
                          (UpdateItem collection (itemId (item webflowTag)) fields) s
                   else (None, s))
          else (None, s))"

definition syncCollectionToWebflowAdditions ::
  "remote \<Rightarrow> (IWebsiteItem \<Rightarrow> IWebflowItem \<Rightarrow> bool) \<Rightarrow> (string, IWebsiteItem) jsmap \<Rightarrow>
     coll \<Rightarrow> bool \<Rightarrow> IWebflowItem syncSt act" where
  "syncCollectionToWebflowAdditions resp equals src collection dryRun =
     forEach (additionStep resp equals collection dryRun) (mvalues src)"

text \<open>
  The body of a removal loop \<^verbatim>\<open>for (const item of dest.values())\<close>, used for tags and
  terrains (key \<^verbatim>\<open>item.slug\<close>, identifier \<^verbatim>\<open>item.item.id\<close>) and for maps (key
  \<^verbatim>\<open>map.rowyId\<close>, identifier \<^verbatim>\<open>map.item.id\<close>). The loop runs over the entries the Map
  had when it started; an entry that an earlier iteration deleted is not visited.
\<close>

definition removalStep ::
  "remote \<Rightarrow> coll \<Rightarrow> ('w \<Rightarrow> string) \<Rightarrow> ('w \<Rightarrow> string) \<Rightarrow> (string, 'v) jsmap \<Rightarrow> bool \<Rightarrow>
     string \<times> 'w \<Rightarrow> 'w syncSt act" where
  "removalStep resp collection keyOf idOf src dryRun e s =
     (case s of (dest, log) \<Rightarrow>
        if \<not> mhas dest (fst e) then (None, s)
        else if \<not> mhas src (keyOf (snd e))
        then (if \<not> dryRun
              then (let c = DeleteItem collection (idOf (snd e))
                    in case resp log c of
                         None \<Rightarrow> (Some RemoteError, (dest, log @ [c]))
                       | Some _ \<Rightarrow> (None, (AList.delete (keyOf (snd e)) dest, log @ [c])))
              else (None, s))
        else (None, s))"

definition syncCollectionToWebflowRemovals ::
  "remote \<Rightarrow> coll \<Rightarrow> (string, IWebsiteItem) jsmap \<Rightarrow> bool \<Rightarrow> IWebflowItem syncSt act" where
  "syncCollectionToWebflowRemovals resp collection src dryRun s =
     forEach (removalStep resp collection slug (\<lambda>w. itemId (item w)) src dryRun) (fst s) s"

definition syncMapTagsToWebflowAdditions ::
  "remote \<Rightarrow> (string, IWebsiteItem) jsmap \<Rightarrow> bool \<Rightarrow> IWebflowItem syncSt act" where
  "syncMapTagsToWebflowAdditions resp src dryRun =
     syncCollectionToWebflowAdditions resp isWebsiteMapTagEqual src MapTagsCollection dryRun"

definition syncMapTagsToWebflowRemovals ::
  "remote \<Rightarrow> (string, IWebsiteItem) jsmap \<Rightarrow> bool \<Rightarrow> IWebflowItem syncSt act" where
  "syncMapTagsToWebflowRemovals resp src dryRun =
     syncCollectionToWebflowRemovals resp MapTagsCollection src dryRun"

definition syncMapTerrainsToWebflowAdditions ::
  "remote \<Rightarrow> (string, IWebsiteItem) jsmap \<Rightarrow> bool \<Rightarrow> IWebflowItem syncSt act" where
  "syncMapTerrainsToWebflowAdditions resp src dryRun =
     syncCollectionToWebflowAdditions resp isWebsiteMapTerrainEqual src MapTerrainsCollection
       dryRun"

definition syncMapTerrainsToWebflowRemovals ::
  "remote \<Rightarrow> (string, IWebsiteItem) jsmap \<Rightarrow> bool \<Rightarrow> IWebflowItem syncSt act" where
  "syncMapTerrainsToWebflowRemovals resp src dryRun =
     syncCollectionToWebflowRemovals resp MapTerrainsCollection src dryRun"

section \<open>Synchronising the maps\<close>

text \<open>After a create or an update of a map: \<^verbatim>\<open>dest.set(map.rowyId, new WebflowMapInfo(item))\<close>.\<close>

definition storeMap :: "remote \<Rightarrow> call \<Rightarrow> string \<Rightarrow> WebflowMapInfo syncSt act" where
  "storeMap resp c key s =
     (case s of (dest, log) \<Rightarrow>
        (case resp log c of
           None \<Rightarrow> (Some RemoteError, (dest, log @ [c]))
         | Some i \<Rightarrow>
             (case WebflowMapInfo_new i of
                Inl e \<Rightarrow> (Some e, (dest, log @ [c]))
              | Inr w \<Rightarrow> (None, (AList.update key w dest, log @ [c])))))"

text \<open>
  The first loop of \<open>syncMapsToWebflow\<close>: a map that the destination lacks is created, the
  others are queued in \<^verbatim>\<open>updatesP\<close> with the outcome of the comparison.
\<close>

type_synonym updates = "(bool \<times> WebsiteMapInfo \<times> WebflowMapInfo) list"

definition mapAddStep ::
  "(string \<Rightarrow> string) \<Rightarrow> remote \<Rightarrow> bool \<Rightarrow> WebsiteMapInfo \<Rightarrow>
     (WebflowMapInfo syncSt \<times> updates) act" where
  "mapAddStep d resp dryRun m s =
     (case map_of (fst (fst s)) (rowyId m) of
        None \<Rightarrow>
          (let fields = WebflowMapInfo_generateFields d m None
           in if \<not> dryRun
              then (case storeMap resp (CreateItem MapsCollection (MapFields fields)) (rowyId m)
                           (fst s) of
                      (r, s') \<Rightarrow> (r, (s', snd s)))
              else (None, s))
      | Some webflowMap \<Rightarrow>
          (None, (fst s, snd s @ [(isWebflowMapInfoEqual d m webflowMap, m, webflowMap)])))"

text \<open>The third loop: the queued maps that differ are updated.\<close>

definition mapUpdateStep ::
  "(string \<Rightarrow> string) \<Rightarrow> remote \<Rightarrow> bool \<Rightarrow> bool \<times> WebsiteMapInfo \<times> WebflowMapInfo \<Rightarrow>
     WebflowMapInfo syncSt act" where
  "mapUpdateStep d resp dryRun u s =
     (case u of (_, m, webflowMap) \<Rightarrow>
        (let fields = WebflowMapInfo_generateFields d m (Some webflowMap)
         in if \<not> dryRun
            then storeMap resp
                   (UpdateItem MapsCollection (itemId (mapItem webflowMap)) (MapFields fields))
                   (rowyId m) s
            else (None, s)))"

definition syncMapsToWebflow ::
  "(string \<Rightarrow> string) \<Rightarrow> remote \<Rightarrow> (string, WebsiteMapInfo) jsmap \<Rightarrow> bool \<Rightarrow>
     WebflowMapInfo syncSt act" where
  "syncMapsToWebflow d resp src dryRun s =
     (case forEach (mapAddStep d resp dryRun) (mvalues src) (s, []) of
        (Some e, (s1, _)) \<Rightarrow> (Some e, s1)
      | (None, (s1, updates)) \<Rightarrow>
          andThen
            (forEach
               (removalStep resp MapsCollection rowyId (\<lambda>w. itemId (mapItem w)) src dryRun)
               (fst s1))
            (forEach (mapUpdateStep d resp dryRun) (filter (\<lambda>u. \<not> fst u) updates))
            s1)"

section \<open>Publishing\<close>

text \<open>
  \<^verbatim>\<open>!i.lastPublished || Date.parse(i.lastPublished) < Date.parse(i.lastUpdated!)\<close>, with
  \<open>dateParse\<close> for \<^verbatim>\<open>Date.parse\<close> on a string (\<open>None\<close> is \<^verbatim>\<open>NaN\<close>, which is also what an
  absent \<^verbatim>\<open>lastUpdated\<close> parses to; a comparison with \<^verbatim>\<open>NaN\<close> is false).
\<close>

definition needsPublish :: "(string \<Rightarrow> int option) \<Rightarrow> CollectionItem \<Rightarrow> bool" where
  "needsPublish dateParse i =
     (case lastPublished i of
        None \<Rightarrow> True
      | Some p \<Rightarrow>
          if p = [] then True
          else (case (dateParse p, Option.bind (lastUpdated i) dateParse) of
                  (Some t1, Some t2) \<Rightarrow> t1 < t2
                | _ \<Rightarrow> False))"

definition chunkSize :: nat where
  "chunkSize = 100"

function publishChunks :: "remote \<Rightarrow> coll \<Rightarrow> string list \<Rightarrow> nat \<Rightarrow> call list act" where
  "publishChunks resp collection itemIds i log =
     (if i < length itemIds
      then (let itemIdsChunk = take chunkSize (drop i itemIds);
                c = PublishItem collection itemIdsChunk
            in case resp log c of
                 None \<Rightarrow> (Some RemoteError, log @ [c])
               | Some _ \<Rightarrow> publishChunks resp collection itemIds (i + chunkSize) (log @ [c]))
      else (None, log))"
  by pat_completeness auto
termination
  by (relation "measure (\<lambda>(resp, collection, itemIds, i, log). length itemIds - i)")
    (auto simp: chunkSize_def)

declare publishChunks.simps [simp del]

definition publishUpdatedWebflowItems ::
  "(string \<Rightarrow> int option) \<Rightarrow> remote \<Rightarrow> coll \<Rightarrow> CollectionItem list \<Rightarrow> bool \<Rightarrow> call list act" where
  "publishUpdatedWebflowItems dateParse resp collection items dryRun log =
     (let itemIds = map itemId (filter (needsPublish dateParse) items)
      in if \<not> dryRun then publishChunks resp collection itemIds 0 log else (None, log))"

section \<open>The sync command\<close>

record syncState =
  webflowMaps :: "(string, WebflowMapInfo) jsmap"
  webflowMapTags :: "(string, IWebflowItem) jsmap"
  webflowMapTerrains :: "(string, IWebflowItem) jsmap"
  rowyMapsInfo :: "(string, WebsiteMapInfo) jsmap"
  calls :: "call list"

definition onMaps :: "WebflowMapInfo syncSt act \<Rightarrow> syncState act" where
  "onMaps p s =
     (case p (webflowMaps s, calls s) of
        (r, (dest, log)) \<Rightarrow> (r, s\<lparr>webflowMaps := dest, calls := log\<rparr>))"

definition onMapTags :: "IWebflowItem syncSt act \<Rightarrow> syncState act" where
  "onMapTags p s =
     (case p (webflowMapTags s, calls s) of
        (r, (dest, log)) \<Rightarrow> (r, s\<lparr>webflowMapTags := dest, calls := log\<rparr>))"

definition onMapTerrains :: "IWebflowItem syncSt act \<Rightarrow> syncState act" where
  "onMapTerrains p s =
     (case p (webflowMapTerrains s, calls s) of
        (r, (dest, log)) \<Rightarrow> (r, s\<lparr>webflowMapTerrains := dest, calls := log\<rparr>))"

definition onCalls :: "call list act \<Rightarrow> syncState act" where
  "onCalls p s = (case p (calls s) of (r, log) \<Rightarrow> (r, s\<lparr>calls := log\<rparr>))"

definition resolveStep ::
  "refField \<Rightarrow> (syncState \<Rightarrow> (string, IWebflowItem) jsmap) \<Rightarrow> bool \<Rightarrow> syncState act" where
  "resolveStep f refs dryRun s =
     (case resolveItemRefsInMapInfos (rowyMapsInfo s) f (refs s) dryRun of
        Inl e \<Rightarrow> (Some e, s)
      | Inr infos \<Rightarrow> (None, s\<lparr>rowyMapsInfo := infos\<rparr>))"

text \<open>The ten statements of the \<^verbatim>\<open>try\<close> block of \<open>syncCommand\<close>, in order.\<close>

definition syncSteps ::
  "(string \<Rightarrow> string) \<Rightarrow> (string \<Rightarrow> int option) \<Rightarrow> remote \<Rightarrow> bool \<Rightarrow>
     (string, IWebsiteItem) jsmap \<Rightarrow> (string, IWebsiteItem) jsmap \<Rightarrow> syncState act list" where
  "syncSteps d dateParse resp dryRun rowyMapTagsInfo rowyMapTerrainsInfo =
     [onMapTags (syncMapTagsToWebflowAdditions resp rowyMapTagsInfo dryRun),
      resolveStep FieldMapTags webflowMapTags dryRun,
      onMapTerrains (syncMapTerrainsToWebflowAdditions resp rowyMapTerrainsInfo dryRun),
      resolveStep FieldMapTerrains webflowMapTerrains dryRun,
      (\<lambda>s. onMaps (syncMapsToWebflow d resp (rowyMapsInfo s) dryRun) s),
      (\<lambda>s. onCalls (publishUpdatedWebflowItems dateParse resp MapTerrainsCollection
                      (map item (mvalues (webflowMapTerrains s))) dryRun) s),
      (\<lambda>s. onCalls (publishUpdatedWebflowItems dateParse resp MapTagsCollection
                      (map item (mvalues (webflowMapTags s))) dryRun) s),
      (\<lambda>s. onCalls (publishUpdatedWebflowItems dateParse resp MapsCollection
                      (map mapItem (mvalues (webflowMaps s))) dryRun) s),
      onMapTags (syncMapTagsToWebflowRemovals resp rowyMapTagsInfo dryRun),
      onMapTerrains (syncMapTerrainsToWebflowRemovals resp rowyMapTerrainsInfo dryRun)]"

text \<open>
  What \<open>syncCommand\<close> reads before the \<^verbatim>\<open>try\<close> block: the three collections of the
  destination, as the items the listing returned.
\<close>

definition readDestination ::
  "CollectionItem list \<Rightarrow> CollectionItem list \<Rightarrow> CollectionItem list \<Rightarrow> error + syncState" where
  "readDestination mapItems tagItems terrainItems =
     (case getAllWebflowMaps mapItems of
        Inl e \<Rightarrow> Inl e
      | Inr maps \<Rightarrow>
          (case getAllWebflowMapTags tagItems of
             Inl e \<Rightarrow> Inl e
           | Inr tags \<Rightarrow>
               (case getAllWebflowMapTerrains terrainItems of
                  Inl e \<Rightarrow> Inl e
                | Inr terrains \<Rightarrow>
                    Inr \<lparr>webflowMaps = maps, webflowMapTags = tags,
                         webflowMapTerrains = terrains, rowyMapsInfo = [], calls = []\<rparr>)))"

text \<open>
  The environment of a run: the digest table of the image hashes, \<^verbatim>\<open>Date.parse\<close>,
  \<^verbatim>\<open>encodeURI\<close>, \<^verbatim>\<open>getDerivedInfo\<close> and the remote.
\<close>

record env =
  digest :: "string \<Rightarrow> string"
  dateParse :: "string \<Rightarrow> int option"
  encodeURI :: "string \<Rightarrow> string"
  getDerivedInfo :: "MapInfo \<Rightarrow> MapMeta \<Rightarrow> DerivedInfo"
  remote :: remote

text \<open>
  \<open>syncCommand\<close>: the outcome, the state it ends in and in it the calls it made. A failure
  before the \<^verbatim>\<open>try\<close> block ends the run with no call made.
\<close>

definition emptyState :: syncState where
  "emptyState =
     \<lparr>webflowMaps = [], webflowMapTags = [], webflowMapTerrains = [], rowyMapsInfo = [],
      calls = []\<rparr>"

text \<open>The run from the state read: the build of the records, then the \<^verbatim>\<open>try\<close> block.\<close>

definition syncFrom ::
  "env \<Rightarrow> bool \<Rightarrow> syncState \<Rightarrow> (string \<times> MapInfo) list \<Rightarrow> (string, MapCDNInfo) jsmap \<Rightarrow>
     (string, MapMeta) jsmap \<Rightarrow> error option \<times> syncState" where
  "syncFrom env dryRun s0 maps cdnInfo mapsMetadata =
     (case buildWebflowInfo (encodeURI env) (getDerivedInfo env) maps cdnInfo mapsMetadata of
        Inl e \<Rightarrow> (Some e, s0)
      | Inr (rowyMapsInfo', rowyMapTagsInfo) \<Rightarrow>
          foldr andThen
            (syncSteps (digest env) (dateParse env) (remote env) dryRun rowyMapTagsInfo
               getRowyMapTerrains)
            (\<lambda>s. (None, s))
            (s0\<lparr>rowyMapsInfo := rowyMapsInfo'\<rparr>))"

definition syncCommand ::
  "env \<Rightarrow> bool \<Rightarrow> CollectionItem list \<Rightarrow> CollectionItem list \<Rightarrow> CollectionItem list \<Rightarrow>
     (string \<times> MapInfo) list \<Rightarrow> (string, MapCDNInfo) jsmap \<Rightarrow> (string, MapMeta) jsmap \<Rightarrow>
     error option \<times> syncState" where
  "syncCommand env dryRun mapItems tagItems terrainItems maps cdnInfo mapsMetadata =
     (case readDestination mapItems tagItems terrainItems of
        Inl e \<Rightarrow> (Some e, emptyState)
      | Inr s0 \<Rightarrow> syncFrom env dryRun s0 maps cdnInfo mapsMetadata)"

section \<open>Example data\<close>

text \<open>A digest table in which \<^verbatim>\<open>A\<close> and \<^verbatim>\<open>wa\<close> hold the same image, and so do \<^verbatim>\<open>B\<close> and \<^verbatim>\<open>wb\<close>.\<close>

definition demoDigest :: "string \<Rightarrow> string" where
  "demoDigest u =
     (if u = ''A'' \<or> u = ''wa'' then ''dA'' else if u = ''B'' \<or> u = ''wb'' then ''dB'' else ''d'' @ u)"

text \<open>The tags \<open>getDerivedInfo\<close> gives for a row, none when the row has no metadata.\<close>

definition rowTags ::
  "(MapInfo \<Rightarrow> MapMeta \<Rightarrow> DerivedInfo) \<Rightarrow> (string, MapMeta) jsmap \<Rightarrow> string \<times> MapInfo \<Rightarrow> string list" where
  "rowTags getDerivedInfo' mapsMetadata row =
     (case map_of mapsMetadata (fst row) of
        None \<Rightarrow> []
      | Some meta \<Rightarrow> d_tags (getDerivedInfo' (snd row) meta))"

text \<open>The elements of a list in the order of their first occurrence.\<close>

definition firstSeen :: "'a list \<Rightarrow> 'a list" where
  "firstSeen xs = rev (remdups (rev xs))"

text \<open>A remote that accepts every call and answers with an item without field data.\<close>

definition acceptAll :: remote where
  "acceptAll log c = Some \<lparr>itemId = [], lastPublished = None, lastUpdated = None, fieldData = None\<rparr>"

definition demoParse :: "string \<Rightarrow> int option" where
  "demoParse s = (if s = ''Jan 1'' then Some 1 else if s = ''Jan 2'' then Some 2 else None)"

definition demoItems :: "CollectionItem list" where
  "demoItems =
     [\<lparr>itemId = ''i1'', lastPublished = None, lastUpdated = Some ''Jan 2'', fieldData = None\<rparr>,
      \<lparr>itemId = ''i2'', lastPublished = Some ''Jan 2'', lastUpdated = Some ''Jan 2'', fieldData = None\<rparr>,
      \<lparr>itemId = ''i3'', lastPublished = Some ''Jan 1'', lastUpdated = Some ''Jan 2'', fieldData = None\<rparr>,
      \<lparr>itemId = ''i4'', lastPublished = Some ''Jan 2'', lastUpdated = Some ''Jan 1'', fieldData = None\<rparr>]"

text \<open>
  In the words of the specification: some field of a built record is \<^verbatim>\<open>undefined\<close> or the
  empty string.
\<close>

definition fieldMissing :: "WebsiteMapInfo \<Rightarrow> bool" where
  "fieldMissing info =
     (mapName info = [] \<or> rowyId info = [] \<or> minimapUrl info = [] \<or> minimapThumbUrl info = []
      \<or> downloadUrl info = Undefined \<or> downloadUrl info = Def []
      \<or> width info = Undefined \<or> height info = Undefined \<or> mapSize info = Undefined
      \<or> title info = Undefined \<or> title info = Def []
      \<or> description info = Undefined \<or> description info = Def []
      \<or> author info = []
      \<or> bgImageUrl info = Undefined \<or> bgImageUrl info = Def []
      \<or> perspectiveShotUrl info = Undefined \<or> perspectiveShotUrl info = Def []
      \<or> windMin info = Undefined \<or> windMax info = Undefined \<or> tidalStrength info = Undefined
      \<or> textureMapUrl info = [] \<or> heightMapUrl info = [] \<or> metalMapUrl info = [])"

text \<open>
  The three reasons for which a row is to be rejected: no CDN entry for its
  \<^verbatim>\<open>springName\<close>, a required file that its metadata lacks, or a field of the record
  built from it that is missing.
\<close>

definition noDownload :: "(string, MapCDNInfo) jsmap \<Rightarrow> string \<times> MapInfo \<Rightarrow> bool" where
  "noDownload cdnInfo row = (map_of cdnInfo (row_springName (snd row)) = None)"

definition lacksFile :: "(string, MapMeta) jsmap \<Rightarrow> string \<times> MapInfo \<Rightarrow> bool" where
  "lacksFile mapsMetadata row =
     (case map_of mapsMetadata (fst row) of
        None \<Rightarrow> False
      | Some meta \<Rightarrow> \<not> set requiredFiles \<subseteq> set (extractedFiles meta))"

definition lacksField ::
  "(string \<Rightarrow> string) \<Rightarrow> (MapInfo \<Rightarrow> MapMeta \<Rightarrow> DerivedInfo) \<Rightarrow> (string, MapCDNInfo) jsmap \<Rightarrow>
     (string, MapMeta) jsmap \<Rightarrow> string \<times> MapInfo \<Rightarrow> bool" where
  "lacksField enc gdi cdnInfo mapsMetadata row =
     (case (map_of cdnInfo (row_springName (snd row)), map_of mapsMetadata (fst row),
            row_photo (snd row)) of
        (Some mi, Some meta, photo0 # _) \<Rightarrow>
          fieldMissing (makeInfo enc (fst row) (snd row) mi meta (gdi (snd row) meta) photo0)
      | _ \<Rightarrow> False)"

text \<open>Two rows, their CDN records and their metadata; wind and tidal numbers of zero.\<close>

definition demoRows :: "(string \<times> MapInfo) list" where
  "demoRows =
     [(''r1'', \<lparr>row_springName = ''Alpha 1.0'', row_displayName = ''Alpha'', row_author = ''ann'',
              row_title = None, row_description = Some ''first'', row_photo = [''p/a.png''],
              row_backgroundImage = [], row_perspectiveShot = [''p/s.png''],
              row_inGameShots = [''p/g.png''], row_teamCount = 2, row_playerCount = 8\<rparr>),
      (''r2'', \<lparr>row_springName = ''Beta 2'', row_displayName = ''Beta'', row_author = ''bob'',
              row_title = Some ''B'', row_description = None, row_photo = [''p/b.png''],
              row_backgroundImage = [], row_perspectiveShot = [],
              row_inGameShots = [], row_teamCount = 2, row_playerCount = 2\<rparr>)]"

definition demoCdn :: "(string, MapCDNInfo) jsmap" where
  "demoCdn = [(''Alpha 1.0'', \<lparr>mirrors = [''cdn/alpha'']\<rparr>), (''Beta 2'', \<lparr>mirrors = [''cdn/beta'']\<rparr>)]"

definition demoMeta :: "(string, MapMeta) jsmap" where
  "demoMeta =
     [(''r1'', \<lparr>extractedFiles = [''height.png'', ''metal.png'', ''texture.jpg''],
              location_bucket = ''b'', location_path = ''m1''\<rparr>),
      (''r2'', \<lparr>extractedFiles = [''texture.jpg'', ''metal.png'', ''height.png'', ''x''],
              location_bucket = ''b'', location_path = ''m2''\<rparr>)]"

definition demoDerived :: "string list \<Rightarrow> string list \<Rightarrow> MapInfo \<Rightarrow> MapMeta \<Rightarrow> DerivedInfo" where
  "demoDerived tags1 tags2 m meta =
     \<lparr>d_width = Def 16, d_height = Def 8, d_windMin = Def 0, d_windMax = Def 20,
      d_tidalStrength = (if row_springName m = ''Alpha 1.0'' then Def 0 else Undefined),
      d_tags = (if row_springName m = ''Alpha 1.0'' then tags1 else tags2),
      d_terrainOrdered = [''ice'']\<rparr>"

text \<open>The same metadata without the height map of the second row.\<close>

definition demoMetaBad :: "(string, MapMeta) jsmap" where
  "demoMetaBad =
     [(''r1'', \<lparr>extractedFiles = [''height.png'', ''metal.png'', ''texture.jpg''],
              location_bucket = ''b'', location_path = ''m1''\<rparr>),
      (''r2'', \<lparr>extractedFiles = [''texture.jpg'', ''metal.png''],
              location_bucket = ''b'', location_path = ''m2''\<rparr>)]"

definition demoEnv :: "string list \<Rightarrow> string list \<Rightarrow> remote \<Rightarrow> env" where
  "demoEnv tags1 tags2 r =
     \<lparr>digest = demoDigest, dateParse = demoParse, encodeURI = (\<lambda>p. p),
      getDerivedInfo = demoDerived tags1 tags2, remote = r\<rparr>"

section \<open>Properties of actions\<close>

text \<open>
  An action emits calls of a kind when every call it adds to the log (read off the state
  by \<open>lg\<close>) is of that kind and the log it found is kept as a prefix. It keeps an
  observation \<open>g\<close> when \<open>g\<close> reads the same before and after.
\<close>

definition emits :: "('s \<Rightarrow> call list) \<Rightarrow> (call \<Rightarrow> bool) \<Rightarrow> 's act \<Rightarrow> bool" where
  "emits lg Q p = (\<forall>s. \<exists>new. lg (snd (p s)) = lg s @ new \<and> list_all Q new)"

definition keeps :: "('s \<Rightarrow> 'a) \<Rightarrow> 's act \<Rightarrow> bool" where
  "keeps g p = (\<forall>s. g (snd (p s)) = g s)"

text \<open>The kinds of calls: by collection, and the deletions in the tag and terrain collections.\<close>

definition collectionOf :: "call \<Rightarrow> coll" where
  "collectionOf c =
     (case c of
        CreateItem k _ \<Rightarrow> k
      | UpdateItem k _ _ \<Rightarrow> k
      | DeleteItem k _ \<Rightarrow> k
      | PublishItem k _ \<Rightarrow> k)"

definition isDelete :: "call \<Rightarrow> bool" where
  "isDelete c = (case c of DeleteItem _ _ \<Rightarrow> True | _ \<Rightarrow> False)"

definition isVocabularyDelete :: "call \<Rightarrow> bool" where
  "isVocabularyDelete c =
     (isDelete c \<and> (collectionOf c = MapTagsCollection \<or> collectionOf c = MapTerrainsCollection))"

text \<open>What a run can change at the destination: the three Maps read from it and the calls made.\<close>

definition destOf ::
  "syncState \<Rightarrow> (string, WebflowMapInfo) jsmap \<times> (string, IWebflowItem) jsmap
     \<times> (string, IWebflowItem) jsmap \<times> call list" where
  "destOf s = (webflowMaps s, webflowMapTags s, webflowMapTerrains s, calls s)"

section \<open>An example destination\<close>

text \<open>
  A remote that stores what it is sent: the item it answers carries the written fields,
  with each image string taken as the URL of a new asset.
\<close>

definition noFields :: CollectionItemFieldData where
  "noFields =
     \<lparr>r_name = [], r_slug = [], r_rowyid = None, r_minimap = None,
      r_minimap_photo_thumb = None, r_downloadurl = None, r_width = None, r_height = None,
      r_mapsize = None, r_title = None, r_description = None, r_author = None,
      r_bg_image = None, r_perspective_shot = None, r_more_images = None, r_wind_min = None,
      r_wind_max = None, r_tidal_strength = None, r_team_count = None, r_max_players = None,
      r_mini_map = None, r_height_map = None, r_metal_map = None, r_game_tags_ref_2 = None,
      r_terrain_types = None\<rparr>"

definition echoAsset :: "string \<Rightarrow> WebflowImageRef" where
  "echoAsset x = \<lparr>fileId = ''f:'' @ x, url = x\<rparr>"

definition jsOpt :: "'a js \<Rightarrow> 'a option" where
  "jsOpt v = (case v of Def x \<Rightarrow> Some x | _ \<Rightarrow> None)"

definition echoFields :: "fieldsWrite \<Rightarrow> CollectionItemFieldData" where
  "echoFields f =
     (case f of
        TagFields n s \<Rightarrow> noFields\<lparr>r_name := n, r_slug := s\<rparr>
      | MapFields w \<Rightarrow>
          \<lparr>r_name = w_name w, r_slug = w_slug w, r_rowyid = Some (w_rowyid w),
           r_minimap = Some (echoAsset (w_minimap w)),
           r_minimap_photo_thumb = Some (echoAsset (w_minimap_photo_thumb w)),
           r_downloadurl = jsOpt (w_downloadurl w), r_width = jsOpt (w_width w),
           r_height = jsOpt (w_height w), r_mapsize = jsOpt (w_mapsize w),
           r_title = jsOpt (w_title w), r_description = jsOpt (w_description w),
           r_author = Some (w_author w),
           r_bg_image = map_option echoAsset (jsOpt (w_bg_image w)),
           r_perspective_shot = map_option echoAsset (jsOpt (w_perspective_shot w)),
           r_more_images = Some (map echoAsset (w_more_images w)),
           r_wind_min = jsOpt (w_wind_min w), r_wind_max = jsOpt (w_wind_max w),
           r_tidal_strength = jsOpt (w_tidal_strength w),
           r_team_count = Some (w_team_count w), r_max_players = Some (w_max_players w),
           r_mini_map = Some (echoAsset (w_mini_map w)),
           r_height_map = Some (echoAsset (w_height_map w)),
           r_metal_map = Some (echoAsset (w_metal_map w)),
           r_game_tags_ref_2 = Some (w_game_tags_ref_2 w),
           r_terrain_types = Some (w_terrain_types w)\<rparr>)"

definition echoRemote :: remote where
  "echoRemote log c =
     (case c of
        CreateItem k f \<Rightarrow>
          Some \<lparr>itemId = ''new-'' @ r_slug (echoFields f), lastPublished = None,
                lastUpdated = Some ''Jan 2'', fieldData = Some (echoFields f)\<rparr>
      | UpdateItem k i f \<Rightarrow>
          Some \<lparr>itemId = i, lastPublished = Some ''Jan 1'', lastUpdated = Some ''Jan 2'',
                fieldData = Some (echoFields f)\<rparr>
      | _ \<Rightarrow> Some \<lparr>itemId = [], lastPublished = None, lastUpdated = None, fieldData = None\<rparr>)"

text \<open>
  A destination with the tags \<^verbatim>\<open>ffa\<close> and \<^verbatim>\<open>old\<close>, every terrain of the schema and the
  terrain \<^verbatim>\<open>mud\<close>, a stale item for the row \<^verbatim>\<open>r1\<close> that refers to the tag \<^verbatim>\<open>old\<close>, and
  an item for a row \<^verbatim>\<open>r0\<close> that the source no longer has.
\<close>

definition storedItem :: "string \<Rightarrow> CollectionItemFieldData \<Rightarrow> CollectionItem" where
  "storedItem i f =
     \<lparr>itemId = i, lastPublished = Some ''Jan 2'', lastUpdated = Some ''Jan 2'', fieldData = Some f\<rparr>"

definition demoTagItems :: "CollectionItem list" where
  "demoTagItems =
     [storedItem ''t-ffa'' (noFields\<lparr>r_name := ''FFA'', r_slug := ''ffa''\<rparr>),
      storedItem ''t-old'' (noFields\<lparr>r_name := ''OLD'', r_slug := ''old''\<rparr>)]"

definition demoTerrainItems :: "CollectionItem list" where
  "demoTerrainItems =
     map (\<lambda>t. storedItem (''x-'' @ t) (noFields\<lparr>r_name := t, r_slug := t\<rparr>))
       (''mud'' # terrainTypeEnum)"

definition demoMapItems :: "CollectionItem list" where
  "demoMapItems =
     [storedItem ''m-r1''
        (noFields\<lparr>r_name := ''Alpha'', r_slug := ''alpha'', r_rowyid := Some ''r1'',
                  r_game_tags_ref_2 := Some [''t-old'']\<rparr>),
      storedItem ''m-r0''
        (noFields\<lparr>r_name := ''Gone'', r_slug := ''gone'', r_rowyid := Some ''r0''\<rparr>)]"

definition demoRun :: "bool \<Rightarrow> error option \<times> syncState" where
  "demoRun dryRun =
     syncCommand (demoEnv [''ffa''] [''1v1''] echoRemote) dryRun demoMapItems demoTagItems
       demoTerrainItems demoRows demoCdn demoMeta"

text \<open>A call without its field data: the kind, the collection and the item it names.\<close>

datatype callKind = Create | Update | Delete | Publish

definition outline :: "call \<Rightarrow> callKind \<times> coll \<times> string list" where
  "outline c =
     (case c of
        CreateItem k f \<Rightarrow> (Create, k, [r_slug (echoFields f)])
      | UpdateItem k i f \<Rightarrow> (Update, k, [i])
      | DeleteItem k i \<Rightarrow> (Delete, k, [i])
      | PublishItem k ids \<Rightarrow> (Publish, k, ids))"

definition demoInfos :: "(string, WebsiteMapInfo) jsmap" where
  "demoInfos =
     (case buildWebflowInfo (\<lambda>p. p) (demoDerived [''ffa''] [''1v1'']) demoRows demoCdn demoMeta of
        Inl _ \<Rightarrow> []
      | Inr b \<Rightarrow> fst b)"

section \<open>Fields that an item lacks\<close>





section \<open>A destination that stores what it is sent\<close>

text \<open>
  The answer \<open>r\<close> of the remote to a write of the fields \<open>f\<close> reads back as written: for a
  tag or terrain the item carries the name and slug sent; for a map the item, read by
  the constructor of \<open>WebflowMapInfo\<close>, compares equal to the source record with the
  \<^verbatim>\<open>rowyid\<close> sent.
\<close>

definition echoed ::
  "(string \<Rightarrow> string) \<Rightarrow> (string, WebsiteMapInfo) jsmap \<Rightarrow> CollectionItem option \<Rightarrow> fieldsWrite \<Rightarrow> bool" where
  "echoed d src r f =
     (case r of
        None \<Rightarrow> False
      | Some i \<Rightarrow>
          (case f of
             TagFields n s \<Rightarrow>
               (case fieldData i of None \<Rightarrow> False | Some o' \<Rightarrow> r_name o' = n \<and> r_slug o' = s)
           | MapFields fw \<Rightarrow>
               (case (WebflowMapInfo_new i, map_of src (w_rowyid fw)) of
                  (Inr w, Some m) \<Rightarrow> isWebflowMapInfoEqual d m w
                | _ \<Rightarrow> False)))"

definition answered ::
  "(string \<Rightarrow> string) \<Rightarrow> remote \<Rightarrow> (string, WebsiteMapInfo) jsmap \<Rightarrow> call list \<Rightarrow> call \<Rightarrow> bool" where
  "answered d resp src log c =
     (case c of
        CreateItem k f \<Rightarrow> echoed d src (resp log c) f
      | UpdateItem k i f \<Rightarrow> echoed d src (resp log c) f
      | _ \<Rightarrow> True)"

text \<open>Every create and update of a log was answered in this way when it was made.\<close>

definition storedAsWritten ::
  "(string \<Rightarrow> string) \<Rightarrow> remote \<Rightarrow> (string, WebsiteMapInfo) jsmap \<Rightarrow> call list \<Rightarrow> bool" where
  "storedAsWritten d resp src log =
     list_all (\<lambda>n. answered d resp src (take n log) (log ! n)) [0..<length log]"

text \<open>
  The state a following run reads: the three Maps as a run left them, each item with the
  timestamps the destination then reports for it (\<open>t\<close>), no records built and no call
  made yet.
\<close>

definition reread :: "(CollectionItem \<Rightarrow> CollectionItem) \<Rightarrow> syncState \<Rightarrow> syncState" where
  "reread t s =
     \<lparr>webflowMaps = map (\<lambda>e. (fst e, (snd e)\<lparr>mapItem := t (mapItem (snd e))\<rparr>)) (webflowMaps s),
      webflowMapTags = map (\<lambda>e. (fst e, (snd e)\<lparr>item := t (item (snd e))\<rparr>)) (webflowMapTags s),
      webflowMapTerrains =
        map (\<lambda>e. (fst e, (snd e)\<lparr>item := t (item (snd e))\<rparr>)) (webflowMapTerrains s),
      rowyMapsInfo = [], calls = []\<rparr>"

definition isPublish :: "call \<Rightarrow> bool" where
  "isPublish c = (case c of PublishItem _ _ \<Rightarrow> True | _ \<Rightarrow> False)"

text \<open>What the first loop of \<open>syncMapsToWebflow\<close> queues: the maps the destination has, each with
  the outcome of its comparison.\<close>

definition queued ::
  "(string \<Rightarrow> string) \<Rightarrow> (string, WebflowMapInfo) jsmap \<Rightarrow> WebsiteMapInfo list \<Rightarrow> updates" where
  "queued d dest xs =
     map (\<lambda>m. (isWebflowMapInfoEqual d m (the (map_of dest (rowyId m))), m,
               the (map_of dest (rowyId m))))
       (filter (\<lambda>m. map_of dest (rowyId m) \<noteq> None) xs)"

section \<open>Properties of slugs and image references\<close>

lemma map_of_newMap_aux:
  "map_of (foldl (\<lambda>m (k, v). AList.update k v m) m0 es) = map_of (rev es @ m0)"
proof (induction es arbitrary: m0)
  case Nil
  show ?case by simp
next
  case (Cons e es)
  obtain k v where e: "e = (k, v)" by (cases e)
  have "map_of (rev es @ AList.update k v m0) = map_of (rev es @ (k, v) # m0)"
    by (rule ext) (simp add: map_add_def update_conv' split: option.splits)
  with Cons.IH [of "AList.update k v m0"] e show ?case by simp
qed

lemma map_of_newMap: "map_of (newMap es) = map_of (rev es)"
  by (simp add: newMap_def map_of_newMap_aux)

lemma getImageHash_digest:
  "fst (getImageHash f cache u) = imageHash (digestVia f cache) u"
  by (simp add: getImageHash_def imageHash_def digestVia_def split: js.splits option.splits)

lemma getImageHash_stable:
  "digestVia f (snd (getImageHash f cache u)) = digestVia f cache"
  by (rule ext)
    (simp add: getImageHash_def digestVia_def update_conv' split: js.splits option.splits)

lemma toLowerChar_slug: "isSlugChar c \<Longrightarrow> toLowerChar c = c"
  unfolding isSlugChar_def toLowerChar_def code_def by auto

lemma toLowerCase_slug: "list_all isSlugChar s \<Longrightarrow> toLowerCase s = s"
  by (induction s) (simp_all add: toLowerCase_def toLowerChar_slug)

lemma isSeparator_slug: "isSlugChar c \<Longrightarrow> \<not> isSeparator c"
  unfolding isSlugChar_def isSeparator_def code_def by auto

lemma isSlugChar_hyphen: "isSlugChar CHR ''-''"
  by (simp add: isSlugChar_def)

lemma slugVia_chars: "list_all isSlugChar (slugVia lower n)"
  by (simp add: slugVia_def list_all_iff)

lemma replaces_fix:
  "list_all isSlugChar xs \<Longrightarrow>
     filter isSlugChar (map (\<lambda>c. if isSeparator c then CHR ''-'' else c) xs) = xs"
  by (induction xs) (simp_all add: isSeparator_slug)

lemma replaces_concat:
  "filter isSlugChar (map (\<lambda>c. if isSeparator c then CHR ''-'' else c) xs) =
     concat (map (\<lambda>c. if isSeparator c then ''-'' else if isSlugChar c then [c] else []) xs)"
  by (induction xs) (simp_all add: isSlugChar_hyphen)

lemma slugFromName_chars: "list_all isSlugChar (slugFromName n)"
  by (simp add: slugFromName_def slugVia_chars)

lemma slugFromName_fix: "list_all isSlugChar xs \<Longrightarrow> slugFromName xs = xs"
  by (simp add: slugFromName_def slugVia_def toLowerCase_slug replaces_fix)

text \<open>
  C8, as amended. Whatever the case mapping \<open>lower\<close> is, the slug holds only lowercase
  letters, digits and hyphens, and it is the lower-cased name in which every \<^verbatim>\<open>.\<close>, space
  and \<^verbatim>\<open>_\<close> has become one hyphen of its own and every other character outside
  \<^verbatim>\<open>[a-z0-9-]\<close> has been deleted: runs are not collapsed and nothing is stripped at the
  ends. With a case mapping that leaves a string of such characters as it is, the slug of
  a slug is the slug itself; \<open>slugFromName\<close> is the instance for \<open>toLowerCase\<close>, which is
  such a mapping.
\<close>

theorem slugFromName_shape:
  "list_all isSlugChar (slugVia lower n)
   \<and> slugVia lower n =
       concat (map (\<lambda>c. if isSeparator c then ''-'' else if isSlugChar c then [c] else [])
                 (lower n))
   \<and> ((\<forall>s. list_all isSlugChar s \<longrightarrow> lower s = s) \<longrightarrow>
        slugVia lower (slugVia lower n) = slugVia lower n)
   \<and> slugFromName n = slugVia toLowerCase n
   \<and> slugFromName (slugFromName n) = slugFromName n"
proof (intro conjI impI)
  show "list_all isSlugChar (slugVia lower n)" by (rule slugVia_chars)
  show "slugVia lower n =
       concat (map (\<lambda>c. if isSeparator c then ''-'' else if isSlugChar c then [c] else [])
                 (lower n))"
    unfolding slugVia_def by (rule replaces_concat)
  show "slugFromName n = slugVia toLowerCase n" by (simp add: slugFromName_def)
  show "slugFromName (slugFromName n) = slugFromName n"
    by (rule slugFromName_fix [OF slugFromName_chars])
next
  assume fx: "\<forall>s. list_all isSlugChar s \<longrightarrow> lower s = s"
  have "list_all isSlugChar (slugVia lower n)" by (rule slugVia_chars)
  with fx have "lower (slugVia lower n) = slugVia lower n" by blast
  then have "slugVia lower (slugVia lower n) =
      filter isSlugChar (map (\<lambda>c. if isSeparator c then CHR ''-'' else c) (slugVia lower n))"
    by (simp add: slugVia_def)
  also have "\<dots> = slugVia lower n"
    by (rule replaces_fix [OF slugVia_chars])
  finally show "slugVia lower (slugVia lower n) = slugVia lower n" .
qed

theorem slugFromName_shape_witness:
  "slugFromName ''Glacier Pass_v1.2!'' = ''glacier-pass-v1-2''
   \<and> slugVia toLowerCase ''glacier-pass-v1-2'' = ''glacier-pass-v1-2''
   \<and> list_all isSlugChar ''glacier-pass-v1-2''"
proof -
  have v: "slugVia toLowerCase ''Glacier Pass_v1.2!'' = ''glacier-pass-v1-2''" by code_simp
  have fx: "\<forall>s. list_all isSlugChar s \<longrightarrow> toLowerCase s = s"
    by (simp add: toLowerCase_slug)
  from slugFromName_shape [of toLowerCase "''Glacier Pass_v1.2!''"] fx
  have a: "list_all isSlugChar (slugVia toLowerCase ''Glacier Pass_v1.2!'')"
    and b: "slugVia toLowerCase (slugVia toLowerCase ''Glacier Pass_v1.2!'') =
              slugVia toLowerCase ''Glacier Pass_v1.2!''"
    and c: "slugFromName ''Glacier Pass_v1.2!'' = slugVia toLowerCase ''Glacier Pass_v1.2!''"
    by blast+
  show ?thesis using a [unfolded v] b [unfolded v] c [unfolded v] by blast
qed

text \<open>
  C8, as stated, fails: two spaces in a row give two hyphens, and a leading space gives
  a leading hyphen, where the specification's slug has one hyphen and none.
\<close>

theorem slugFromName_collapse_counterexample:
  "slugFromName ''a  b'' = ''a--b'' \<and> slugify_spec ''a  b'' = ''a-b''
   \<and> slugFromName '' a'' = ''-a'' \<and> slugify_spec '' a'' = ''a''"
  by code_simp

text \<open>
  C3. With an existing asset whose URL has the digest of the desired URL, \<open>pickImage\<close>
  returns the asset's file handle; with no asset, or with an asset of another digest, it
  returns the desired URL.
\<close>

theorem pickImage_resolution:
  "pickImage d u base =
     (case base of
        None \<Rightarrow> u
      | Some b \<Rightarrow>
          if imageHash d (Def (url b)) = imageHash d (Def u) then fileId b else u)"
  by (auto simp: pickImage_def sameImage_def split: option.splits)

theorem pickImage_resolution_witness:
  "pickImage (\<lambda>u. if u = ''cdn/a.webp'' then ''d1'' else ''d2'') ''src/a.webp''
      (Some \<lparr>fileId = ''f1'', url = ''cdn/b.webp''\<rparr>) = ''f1''
   \<and> pickImage (\<lambda>u. if u = ''cdn/a.webp'' then ''d1'' else ''d2'') ''src/a.webp''
      (Some \<lparr>fileId = ''f1'', url = ''cdn/a.webp''\<rparr>) = ''src/a.webp''
   \<and> pickImage (\<lambda>u. if u = ''cdn/a.webp'' then ''d1'' else ''d2'') ''src/a.webp'' None
      = ''src/a.webp''"
proof -
  let ?d = "\<lambda>u. if u = ''cdn/a.webp'' then ''d1'' else ''d2''"
  have "pickImage ?d ''src/a.webp'' (Some \<lparr>fileId = ''f1'', url = ''cdn/b.webp''\<rparr>) = ''f1''"
    unfolding pickImage_resolution by (simp add: imageHash_def)
  moreover
  have "pickImage ?d ''src/a.webp'' (Some \<lparr>fileId = ''f1'', url = ''cdn/a.webp''\<rparr>)
          = ''src/a.webp''"
    unfolding pickImage_resolution by (simp add: imageHash_def)
  moreover have "pickImage ?d ''src/a.webp'' None = ''src/a.webp''"
    unfolding pickImage_resolution by simp
  ultimately show ?thesis by blast
qed

section \<open>List images\<close>

lemma map_of_rev_matches:
  "map_of (rev (map (\<lambda>i. (imageHash d (Def (url i)), fileId i)) bs)) (imageHash d (Def u)) =
     (case digestMatches d bs u of [] \<Rightarrow> None | m # ms \<Rightarrow> Some (fileId (last (m # ms))))"
proof (induction bs rule: rev_induct)
  case Nil
  show ?case by (simp add: digestMatches_def)
next
  case (snoc b bs)
  then show ?case
    by (auto simp: digestMatches_def split: list.splits)
qed

lemma pickImages_map:
  "pickImages d urls base =
     map (\<lambda>u. case digestMatches d (case base of None \<Rightarrow> [] | Some bs \<Rightarrow> bs) u of
                 [] \<Rightarrow> u
               | m # ms \<Rightarrow> if fileId (last (m # ms)) \<noteq> [] then fileId (last (m # ms)) else u)
       urls"
  unfolding pickImages_def Let_def map_of_newMap
  by (simp add: comp_def map_of_rev_matches rev_map [symmetric] split: list.splits)

text \<open>
  Where no existing asset has an empty file handle, \<open>pickImages\<close> maps every desired URL
  whose digest is that of some existing asset to the file handle of such an asset, and
  every other desired URL to itself, whatever the order of the two lists.
\<close>

lemma pickImages_matches:
  assumes "\<forall>b\<in>set bs. fileId b \<noteq> []"
  shows "length (pickImages d urls (Some bs)) = length urls
     \<and> (\<forall>i<length urls.
          (\<exists>b\<in>set bs. imageHash d (Def (url b)) = imageHash d (Def (urls ! i))
                \<and> pickImages d urls (Some bs) ! i = fileId b)
          \<or> ((\<forall>b\<in>set bs. imageHash d (Def (url b)) \<noteq> imageHash d (Def (urls ! i)))
                \<and> pickImages d urls (Some bs) ! i = urls ! i))"
proof (intro conjI allI impI)
  show "length (pickImages d urls (Some bs)) = length urls"
    by (simp add: pickImages_map)
next
  fix i assume i: "i < length urls"
  let ?u = "urls ! i"
  from i have r: "pickImages d urls (Some bs) ! i =
      (case digestMatches d bs ?u of
         [] \<Rightarrow> ?u
       | m # ms \<Rightarrow> if fileId (last (m # ms)) \<noteq> [] then fileId (last (m # ms)) else ?u)"
    by (simp add: pickImages_map)
  show "(\<exists>b\<in>set bs. imageHash d (Def (url b)) = imageHash d (Def ?u)
                \<and> pickImages d urls (Some bs) ! i = fileId b)
          \<or> ((\<forall>b\<in>set bs. imageHash d (Def (url b)) \<noteq> imageHash d (Def ?u))
                \<and> pickImages d urls (Some bs) ! i = ?u)"
  proof (cases "digestMatches d bs ?u")
    case Nil
    then have "\<forall>b\<in>set bs. imageHash d (Def (url b)) \<noteq> imageHash d (Def ?u)"
      by (simp add: digestMatches_def filter_empty_conv)
    with r Nil show ?thesis by simp
  next
    case (Cons m ms)
    let ?b = "last (m # ms)"
    have "?b \<in> set (digestMatches d bs ?u)"
      unfolding Cons by (rule last_in_set) simp
    then have b: "?b \<in> set bs" "imageHash d (Def (url ?b)) = imageHash d (Def ?u)"
      by (simp_all add: digestMatches_def)
    with assms have "fileId ?b \<noteq> []" by blast
    with r Cons have "pickImages d urls (Some bs) ! i = fileId ?b" by simp
    with b show ?thesis by blast
  qed
qed

text \<open>
  C4 fails at an existing asset whose file handle is the empty string. Its digest is
  that of the desired URL, and \<open>pickImages\<close> passes the URL through, where the claim has
  the asset's handle; \<open>pickImage\<close>, for the same URL and the same asset, returns the handle.
\<close>

theorem pickImages_empty_handle:
  "imageHash demoDigest (Def (url \<lparr>fileId = [], url = ''wa''\<rparr>)) = imageHash demoDigest (Def ''A'')
   \<and> pickImages demoDigest [''A''] (Some [\<lparr>fileId = [], url = ''wa''\<rparr>]) = [''A'']
   \<and> pickImage demoDigest ''A'' (Some \<lparr>fileId = [], url = ''wa''\<rparr>) = []
   \<and> fileId \<lparr>fileId = [], url = ''wa''\<rparr> \<noteq> ''A''"
  by code_simp
section \<open>Publishing\<close>

lemma needsPublish_iff:
  "needsPublish dp i \<longleftrightarrow>
     (lastPublished i = None \<or> lastPublished i = Some [] \<or>
      (\<exists>t1 t2. Option.bind (lastPublished i) dp = Some t1 \<and>
               Option.bind (lastUpdated i) dp = Some t2 \<and> t1 < t2))"
  by (auto simp: needsPublish_def split: option.splits)

lemma publishChunks_batches:
  "\<exists>bs. snd (publishChunks resp c ids i log) = log @ map (PublishItem c) bs
     \<and> list_all (\<lambda>b. b \<noteq> [] \<and> length b \<le> 100) bs
     \<and> prefix (concat bs) (drop i ids)
     \<and> (fst (publishChunks resp c ids i log) = None \<longrightarrow> concat bs = drop i ids)
     \<and> ((\<forall>l b. resp l (PublishItem c b) \<noteq> None) \<longrightarrow> fst (publishChunks resp c ids i log) = None)"
proof (induction resp c ids i log rule: publishChunks.induct)
  case (1 resp c ids i log)
  let ?chunk = "take chunkSize (drop i ids)"
  let ?call = "PublishItem c ?chunk"
  show ?case
  proof (cases "i < length ids")
    case False
    then show ?thesis
      by (subst publishChunks.simps, subst (2) publishChunks.simps, subst (3) publishChunks.simps)
         (simp add: exI [of _ "[]"])
  next
    case True
    then have ne: "?chunk \<noteq> []" and le: "length ?chunk \<le> 100"
      by (simp_all add: chunkSize_def)
    have split: "drop i ids = ?chunk @ drop (i + chunkSize) ids"
      by (metis add.commute append_take_drop_id drop_drop)
    show ?thesis
    proof (cases "resp log ?call")
      case None
      with True have r: "publishChunks resp c ids i log = (Some RemoteError, log @ [?call])"
        by (subst publishChunks.simps) (simp add: Let_def)
      have "prefix ?chunk (drop i ids)"
        by (simp add: take_is_prefix)
      with ne le None show ?thesis
        unfolding r by (intro exI [of _ "[?chunk]"]) auto
    next
      case (Some a)
      with True have r: "publishChunks resp c ids i log =
          publishChunks resp c ids (i + chunkSize) (log @ [?call])"
        by (subst publishChunks.simps) (simp add: Let_def)
      from "1.IH" [OF True refl refl Some] obtain done' where
        d0: "snd (publishChunks resp c ids (i + chunkSize) (log @ [?call])) =
              (log @ [?call]) @ map (PublishItem c) done'
          \<and> list_all (\<lambda>b. b \<noteq> [] \<and> length b \<le> 100) done'
          \<and> prefix (concat done') (drop (i + chunkSize) ids)
          \<and> (fst (publishChunks resp c ids (i + chunkSize) (log @ [?call])) = None \<longrightarrow>
             concat done' = drop (i + chunkSize) ids)
          \<and> ((\<forall>l b. resp l (PublishItem c b) \<noteq> None) \<longrightarrow>
             fst (publishChunks resp c ids (i + chunkSize) (log @ [?call])) = None)" ..
      note d = d0 [THEN conjunct1] d0 [THEN conjunct2, THEN conjunct1]
        d0 [THEN conjunct2, THEN conjunct2, THEN conjunct1]
        d0 [THEN conjunct2, THEN conjunct2, THEN conjunct2, THEN conjunct1]
        d0 [THEN conjunct2, THEN conjunct2, THEN conjunct2, THEN conjunct2]
      have "prefix (?chunk @ concat done') (drop i ids)"
        using d(3) by (subst split) simp
      moreover have "fst (publishChunks resp c ids (i + chunkSize) (log @ [?call])) = None \<longrightarrow>
             ?chunk @ concat done' = drop i ids"
        using d(4) split by metis
      ultimately show ?thesis
        unfolding r using d(1,2,5) ne le
        by (intro exI [of _ "?chunk # done'"]) simp
    qed
  qed
qed

text \<open>
  C7. An item is selected for publishing exactly when its \<^verbatim>\<open>lastPublished\<close> is missing (or
  empty) or parses to a time strictly before the one \<^verbatim>\<open>lastUpdated\<close> parses to. Outside a
  dry run the publish calls carry batches of between 1 and 100 identifiers that follow
  the selected identifiers in order; they cover all of them when the run of calls ends
  without an error, which it does when the remote accepts every publish call.
\<close>

theorem publish_selection:
  "(needsPublish dp i \<longleftrightarrow>
      (lastPublished i = None \<or> lastPublished i = Some [] \<or>
       (\<exists>t1 t2. Option.bind (lastPublished i) dp = Some t1 \<and>
                Option.bind (lastUpdated i) dp = Some t2 \<and> t1 < t2)))
   \<and> (\<exists>bs. snd (publishUpdatedWebflowItems dp resp c items False log) =
             log @ map (PublishItem c) bs
          \<and> list_all (\<lambda>b. b \<noteq> [] \<and> length b \<le> 100) bs
          \<and> prefix (concat bs) (map itemId (filter (needsPublish dp) items))
          \<and> (fst (publishUpdatedWebflowItems dp resp c items False log) = None \<longrightarrow>
               concat bs = map itemId (filter (needsPublish dp) items))
          \<and> ((\<forall>l b. resp l (PublishItem c b) \<noteq> None) \<longrightarrow>
               fst (publishUpdatedWebflowItems dp resp c items False log) = None))"
proof (rule conjI)
  show "needsPublish dp i \<longleftrightarrow>
      (lastPublished i = None \<or> lastPublished i = Some [] \<or>
       (\<exists>t1 t2. Option.bind (lastPublished i) dp = Some t1 \<and>
                Option.bind (lastUpdated i) dp = Some t2 \<and> t1 < t2))"
    by (rule needsPublish_iff)
next
  have run: "publishUpdatedWebflowItems dp resp c items False log =
      publishChunks resp c (map itemId (filter (needsPublish dp) items)) 0 log"
    by (simp add: publishUpdatedWebflowItems_def)
  from publishChunks_batches [of resp c "map itemId (filter (needsPublish dp) items)" 0 log]
  show "\<exists>bs. snd (publishUpdatedWebflowItems dp resp c items False log) =
             log @ map (PublishItem c) bs
          \<and> list_all (\<lambda>b. b \<noteq> [] \<and> length b \<le> 100) bs
          \<and> prefix (concat bs) (map itemId (filter (needsPublish dp) items))
          \<and> (fst (publishUpdatedWebflowItems dp resp c items False log) = None \<longrightarrow>
               concat bs = map itemId (filter (needsPublish dp) items))
          \<and> ((\<forall>l b. resp l (PublishItem c b) \<noteq> None) \<longrightarrow>
               fst (publishUpdatedWebflowItems dp resp c items False log) = None)"
    unfolding run by simp
qed

theorem publish_selection_witness:
  "publishUpdatedWebflowItems demoParse acceptAll MapsCollection demoItems False [] =
     (None, [PublishItem MapsCollection [''i1'', ''i3'']])
   \<and> needsPublish demoParse (demoItems ! 2) \<and> \<not> needsPublish demoParse (demoItems ! 1)
   \<and> \<not> needsPublish demoParse (demoItems ! 3)"
proof -
  have acc: "\<forall>l b. acceptAll l (PublishItem MapsCollection b) \<noteq> None"
    by (simp add: acceptAll_def)
  from publish_selection [of demoParse _ acceptAll MapsCollection demoItems "[]"] acc
  have ok: "fst (publishUpdatedWebflowItems demoParse acceptAll MapsCollection demoItems False [])
      = None"
    by blast
  have v: "snd (publishUpdatedWebflowItems demoParse acceptAll MapsCollection demoItems False [])
      = [PublishItem MapsCollection [''i1'', ''i3'']]"
    by code_simp
  have n: "needsPublish demoParse (demoItems ! 2)" "\<not> needsPublish demoParse (demoItems ! 1)"
    "\<not> needsPublish demoParse (demoItems ! 3)"
    by code_simp+
  from ok v n show ?thesis by (simp add: prod_eq_iff)
qed

section \<open>The tag vocabulary and the records built\<close>

lemma addTags_snoc: "addTags m (ts @ [t]) = addTag (addTags m ts) t"
  by (simp add: addTags_def)

lemma map_of_addTags:
  "map_of (addTags m ts) s =
     (case filter (\<lambda>t. slugFromName t = s) ts of
        [] \<Rightarrow> map_of m s
      | t # r \<Rightarrow> Some \<lparr>name = toUpperCase (last (t # r)), slug = s\<rparr>)"
proof (induction ts rule: rev_induct)
  case Nil
  show ?case by (simp add: addTags_def)
next
  case (snoc t ts)
  then show ?case
    by (auto simp: addTags_snoc addTag_def update_conv' split: list.splits)
qed

lemma firstSeen_snoc:
  "firstSeen (xs @ [x]) = (if x \<in> set xs then firstSeen xs else firstSeen xs @ [x])"
  by (simp add: firstSeen_def)

lemma set_firstSeen: "set (firstSeen xs) = set xs"
  by (simp add: firstSeen_def)

lemma keys_addTags:
  "map fst (addTags m ts) =
     map fst m @ filter (\<lambda>k. k \<notin> fst ` set m) (firstSeen (map slugFromName ts))"
proof (induction ts rule: rev_induct)
  case Nil
  show ?case by (simp add: addTags_def firstSeen_def)
next
  case (snoc t ts)
  then show ?case
    by (auto simp: addTags_snoc addTag_def update_keys firstSeen_snoc set_firstSeen image_iff)
qed

lemma addTags_append: "addTags m (a @ b) = addTags (addTags m a) b"
  by (simp add: addTags_def)

lemma buildOne_tags:
  "buildOne enc gdi cdn meta row (mi, tags) = (None, (mi', tags')) \<Longrightarrow>
     tags' = addTags tags (rowTags gdi meta row)"
  by (cases row)
    (auto simp: buildOne_def rowTags_def Let_def split: option.splits if_splits list.splits)

lemma forEach_buildOne_tags:
  "forEach (buildOne enc gdi cdn meta) rows (mi, tags) = (None, (mi', tags')) \<Longrightarrow>
     tags' = addTags tags (concat (map (rowTags gdi meta) rows))"
proof (induction rows arbitrary: mi tags)
  case Nil
  then show ?case by (simp add: addTags_def)
next
  case (Cons row rows)
  from Cons.prems obtain mi1 tags1 where
    one: "buildOne enc gdi cdn meta row (mi, tags) = (None, (mi1, tags1))"
    and rest: "forEach (buildOne enc gdi cdn meta) rows (mi1, tags1) = (None, (mi', tags'))"
    by (auto simp: andThen_def split: prod.splits option.splits)
  from buildOne_tags [OF one] Cons.IH [OF rest] show ?case
    by (simp add: addTags_append)
qed

text \<open>
  C9, as amended. Every tag name found while the records are built is stored in the tag
  vocabulary under its slug with its uppercase form as display name, at the position
  where the slug was first seen; a later tag with the same slug replaces the stored
  entry, so the vocabulary holds for each slug the uppercase form of the last tag name
  with that slug.
\<close>

theorem tag_vocabulary:
  "map_of (addTags m ts) s =
     (case filter (\<lambda>t. slugFromName t = s) ts of
        [] \<Rightarrow> map_of m s
      | t # r \<Rightarrow> Some \<lparr>name = toUpperCase (last (t # r)), slug = s\<rparr>)
   \<and> map fst (addTags m ts) =
       map fst m @ filter (\<lambda>k. k \<notin> fst ` set m) (firstSeen (map slugFromName ts))
   \<and> (buildWebflowInfo enc gdi rows cdn metas = Inr (infos, tags) \<longrightarrow>
        tags = addTags [] (concat (map (rowTags gdi metas) rows)))"
proof (intro conjI impI)
  show "map_of (addTags m ts) s =
     (case filter (\<lambda>t. slugFromName t = s) ts of
        [] \<Rightarrow> map_of m s
      | t # r \<Rightarrow> Some \<lparr>name = toUpperCase (last (t # r)), slug = s\<rparr>)"
    by (rule map_of_addTags)
  show "map fst (addTags m ts) =
       map fst m @ filter (\<lambda>k. k \<notin> fst ` set m) (firstSeen (map slugFromName ts))"
    by (rule keys_addTags)
next
  assume "buildWebflowInfo enc gdi rows cdn metas = Inr (infos, tags)"
  then have "forEach (buildOne enc gdi cdn metas) rows ([], []) = (None, (infos, tags))"
    by (auto simp: buildWebflowInfo_def split: prod.splits option.splits)
  then show "tags = addTags [] (concat (map (rowTags gdi metas) rows))"
    by (rule forEach_buildOne_tags)
qed

theorem tag_vocabulary_witness:
  "map snd (snd (projr (buildWebflowInfo (\<lambda>p. p) (demoDerived [''ffa'', ''a b''] [''a_b'', ''ffa''])
       demoRows demoCdn demoMeta))) =
     [\<lparr>name = ''FFA'', slug = ''ffa''\<rparr>, \<lparr>name = ''A_B'', slug = ''a-b''\<rparr>]"
proof -
  let ?gdi = "demoDerived [''ffa'', ''a b''] [''a_b'', ''ffa'']"
  obtain infos tags where
    b: "buildWebflowInfo (\<lambda>p. p) ?gdi demoRows demoCdn demoMeta = Inr (infos, tags)"
  proof -
    have "case buildWebflowInfo (\<lambda>p. p) ?gdi demoRows demoCdn demoMeta of
            Inl _ \<Rightarrow> False | Inr _ \<Rightarrow> True"
      by code_simp
    then show ?thesis using that by (auto split: sum.splits)
  qed
  from tag_vocabulary [of "[]" "[]" "[]" "\<lambda>p. p" ?gdi demoRows demoCdn demoMeta infos tags] b
  have "tags = addTags [] (concat (map (rowTags ?gdi demoMeta) demoRows))"
    by blast
  moreover have "map snd (addTags [] (concat (map (rowTags ?gdi demoMeta) demoRows))) =
      [\<lparr>name = ''FFA'', slug = ''ffa''\<rparr>, \<lparr>name = ''A_B'', slug = ''a-b''\<rparr>]"
    by code_simp
  ultimately show ?thesis using b by simp
qed

text \<open>
  C9, as stated, fails: \<^verbatim>\<open>a b\<close> and \<^verbatim>\<open>a_b\<close> have the slug \<^verbatim>\<open>a-b\<close>, and the entry stored
  for the first is replaced by the entry of the second.
\<close>

theorem tag_vocabulary_first_counterexample:
  "slugFromName ''a b'' = slugFromName ''a_b''
   \<and> map_of (addTags [] [''a b'']) ''a-b'' = Some \<lparr>name = ''A B'', slug = ''a-b''\<rparr>
   \<and> map_of (addTags [] [''a b'', ''a_b'']) ''a-b'' = Some \<lparr>name = ''A_B'', slug = ''a-b''\<rparr>"
  by code_simp


section \<open>Rejected rows\<close>

lemma missingKey_iff: "missingKey info \<noteq> None \<longleftrightarrow> fieldMissing info"
proof -
  have "missingKey info \<noteq> None \<longleftrightarrow> (\<exists>k. (k, True) \<in> set (infoEntries info))"
    by (auto simp: missingKey_def find_None_iff)
  also have "\<dots> \<longleftrightarrow> fieldMissing info"
    unfolding infoEntries_def fieldMissing_def missingStr_def missingJsStr_def missingJs_def
    by (simp add: ex_disj_distrib disj_ac)
  finally show ?thesis .
qed

lemma forEach_fails:
  "x \<in> set xs \<Longrightarrow> (\<And>s. fst (f x s) \<noteq> None) \<Longrightarrow> fst (forEach f xs s) \<noteq> None"
proof (induction xs arbitrary: s)
  case Nil
  then show ?case by simp
next
  case (Cons y ys)
  show ?case
  proof (cases "fst (f y s)")
    case None
    with Cons.prems(1) Cons.prems(2) [of s] have "x \<in> set ys" by auto
    from Cons.IH [OF this Cons.prems(2)] None show ?thesis
      by (auto simp: andThen_def split: prod.splits option.splits)
  next
    case (Some e)
    then show ?thesis
      by (auto simp: andThen_def split: prod.splits option.splits)
  qed
qed

lemma buildOne_noDownload:
  "noDownload cdn row \<Longrightarrow>
     fst (buildOne enc gdi cdn metas row s) = Some (MissingDownloadUrl (row_springName (snd row)))"
  by (cases row; cases s) (simp add: buildOne_def noDownload_def)

lemma buildOne_lacksFile:
  "\<not> noDownload cdn row \<Longrightarrow> lacksFile metas row \<Longrightarrow>
     fst (buildOne enc gdi cdn metas row s) = Some AssertionError"
  by (cases row; cases s)
    (auto simp: buildOne_def noDownload_def lacksFile_def list_all_iff split: option.splits)

lemma buildOne_lacksField:
  assumes "\<not> noDownload cdn row" "\<not> lacksFile metas row" "lacksField enc gdi cdn metas row"
  shows "\<exists>k. fst (buildOne enc gdi cdn metas row s) = Some (MissingValue (row_springName (snd row)) k)"
proof -
  obtain rid m where row: "row = (rid, m)" by (cases row)
  obtain mi infos where s: "s = (mi, infos)" by (cases s)
  from assms(3) obtain c meta p ps where
    c: "map_of cdn (row_springName m) = Some c" and meta: "map_of metas rid = Some meta"
    and p: "row_photo m = p # ps"
    and miss: "fieldMissing (makeInfo enc rid m c meta (gdi m meta) p)"
    by (auto simp: lacksField_def row split: option.splits list.splits)
  from miss obtain k where k: "missingKey (makeInfo enc rid m c meta (gdi m meta) p) = Some k"
    using missingKey_iff by blast
  from assms(2) meta have files: "list_all (\<lambda>img. img \<in> set (extractedFiles meta)) requiredFiles"
    by (auto simp: lacksFile_def row list_all_iff)
  show ?thesis
    unfolding row s buildOne_def using c meta p k files by (simp add: Let_def)
qed

lemma buildOne_rejects:
  "noDownload cdn row \<or> lacksFile metas row \<or> lacksField enc gdi cdn metas row \<Longrightarrow>
     fst (buildOne enc gdi cdn metas row s) \<noteq> None"
  using buildOne_noDownload [of cdn row enc gdi metas s]
    buildOne_lacksFile [of cdn row metas enc gdi s]
    buildOne_lacksField [of cdn row metas enc gdi s]
  by (cases "noDownload cdn row"; cases "lacksFile metas row") auto

lemma readDestination_calls: "readDestination a b c = Inr s0 \<Longrightarrow> calls s0 = []"
  by (auto simp: readDestination_def split: sum.splits)

lemma syncCommand_build_fails:
  assumes "buildWebflowInfo (encodeURI env) (getDerivedInfo env) rows cdn metas = Inl e"
  shows "fst (syncCommand env dryRun a b c rows cdn metas) \<noteq> None
       \<and> calls (snd (syncCommand env dryRun a b c rows cdn metas)) = []"
  using assms
  by (auto simp: syncCommand_def syncFrom_def emptyState_def readDestination_calls split: sum.splits)

text \<open>
  C5. A row without a CDN entry for its \<^verbatim>\<open>springName\<close> stops the build with the error
  that names the map; a row whose metadata lacks one of \<^verbatim>\<open>height.png\<close>, \<^verbatim>\<open>metal.png\<close>,
  \<^verbatim>\<open>texture.jpg\<close> stops it with a failed assertion; a row whose record has a field that is
  \<^verbatim>\<open>undefined\<close> or the empty string stops it with the error that names the map and a
  key. The check rejects a record exactly when such a field exists, so setting numeric
  fields to zero never makes a record rejected. A list of rows with such a row makes
  \<open>buildWebflowInfo\<close> fail, and then \<open>syncCommand\<close> ends with an error and has made no call.
\<close>

theorem build_rejects:
  "(noDownload cdn row \<longrightarrow>
      fst (buildOne (encodeURI env) (getDerivedInfo env) cdn metas row s) =
        Some (MissingDownloadUrl (row_springName (snd row))))
   \<and> (\<not> noDownload cdn row \<and> lacksFile metas row \<longrightarrow>
      fst (buildOne (encodeURI env) (getDerivedInfo env) cdn metas row s) = Some AssertionError)
   \<and> (\<not> noDownload cdn row \<and> \<not> lacksFile metas row
        \<and> lacksField (encodeURI env) (getDerivedInfo env) cdn metas row \<longrightarrow>
      (\<exists>k. fst (buildOne (encodeURI env) (getDerivedInfo env) cdn metas row s) =
             Some (MissingValue (row_springName (snd row)) k)))
   \<and> (missingKey info \<noteq> None \<longleftrightarrow> fieldMissing info)
   \<and> (fieldMissing
         (info\<lparr>width := Def 0, height := Def 0, mapSize := Def 0, windMin := Def 0,
               windMax := Def 0, tidalStrength := Def 0, teamCount := 0, maxPlayers := 0\<rparr>)
        \<longrightarrow> fieldMissing info)
   \<and> (row \<in> set rows
        \<and> (noDownload cdn row \<or> lacksFile metas row
             \<or> lacksField (encodeURI env) (getDerivedInfo env) cdn metas row) \<longrightarrow>
      (\<exists>e. buildWebflowInfo (encodeURI env) (getDerivedInfo env) rows cdn metas = Inl e)
      \<and> fst (syncCommand env dryRun mapItems tagItems terrainItems rows cdn metas) \<noteq> None
      \<and> calls (snd (syncCommand env dryRun mapItems tagItems terrainItems rows cdn metas)) = [])"
proof (intro conjI impI)
  assume "noDownload cdn row"
  then show "fst (buildOne (encodeURI env) (getDerivedInfo env) cdn metas row s) =
        Some (MissingDownloadUrl (row_springName (snd row)))"
    by (rule buildOne_noDownload)
next
  assume "\<not> noDownload cdn row \<and> lacksFile metas row"
  then show "fst (buildOne (encodeURI env) (getDerivedInfo env) cdn metas row s) =
      Some AssertionError"
    by (simp add: buildOne_lacksFile)
next
  assume "\<not> noDownload cdn row \<and> \<not> lacksFile metas row
        \<and> lacksField (encodeURI env) (getDerivedInfo env) cdn metas row"
  then show "\<exists>k. fst (buildOne (encodeURI env) (getDerivedInfo env) cdn metas row s) =
             Some (MissingValue (row_springName (snd row)) k)"
    by (simp add: buildOne_lacksField)
next
  show "missingKey info \<noteq> None \<longleftrightarrow> fieldMissing info"
    by (rule missingKey_iff)
next
  assume "fieldMissing
         (info\<lparr>width := Def 0, height := Def 0, mapSize := Def 0, windMin := Def 0,
               windMax := Def 0, tidalStrength := Def 0, teamCount := 0, maxPlayers := 0\<rparr>)"
  then show "fieldMissing info"
    by (simp add: fieldMissing_def) blast
next
  assume bad: "row \<in> set rows
        \<and> (noDownload cdn row \<or> lacksFile metas row
             \<or> lacksField (encodeURI env) (getDerivedInfo env) cdn metas row)"
  then have "fst (forEach (buildOne (encodeURI env) (getDerivedInfo env) cdn metas) rows ([], []))
      \<noteq> None"
    by (intro forEach_fails [of row] buildOne_rejects) auto
  then obtain e where
    e: "buildWebflowInfo (encodeURI env) (getDerivedInfo env) rows cdn metas = Inl e"
    by (cases "forEach (buildOne (encodeURI env) (getDerivedInfo env) cdn metas) rows ([], [])")
      (auto simp: buildWebflowInfo_def)
  then show "\<exists>e. buildWebflowInfo (encodeURI env) (getDerivedInfo env) rows cdn metas = Inl e"
    by blast
  from syncCommand_build_fails [OF e]
  show "fst (syncCommand env dryRun mapItems tagItems terrainItems rows cdn metas) \<noteq> None"
    and "calls (snd (syncCommand env dryRun mapItems tagItems terrainItems rows cdn metas)) = []"
    by blast+
qed

theorem build_rejects_witness:
  "buildWebflowInfo (\<lambda>p. p) (demoDerived [''ffa''] [''1v1'']) demoRows demoCdn demoMetaBad
     = Inl AssertionError
   \<and> calls (snd (syncCommand (demoEnv [''ffa''] [''1v1''] acceptAll) False [] [] []
        demoRows demoCdn demoMetaBad)) = []
   \<and> buildWebflowInfo (\<lambda>p. p) (demoDerived [''ffa''] [''1v1'']) demoRows [] demoMeta
     = Inl (MissingDownloadUrl ''Alpha 1.0'')
   \<and> (case buildWebflowInfo (\<lambda>p. p) (demoDerived [''ffa''] [''1v1'']) demoRows demoCdn demoMeta
       of Inl _ \<Rightarrow> False | Inr _ \<Rightarrow> True)"
proof -
  let ?env = "demoEnv [''ffa''] [''1v1''] acceptAll"
  let ?row = "demoRows ! 1"
  have mem: "?row \<in> set demoRows" by (simp add: demoRows_def)
  have bad: "lacksFile demoMetaBad ?row" by code_simp
  have enc: "encodeURI ?env = (\<lambda>p. p)" "getDerivedInfo ?env = demoDerived [''ffa''] [''1v1'']"
    by (simp_all add: demoEnv_def)
  from build_rejects [of demoCdn ?row ?env demoMetaBad _ _ demoRows False "[]" "[]" "[]"] mem bad
  have "calls (snd (syncCommand ?env False [] [] [] demoRows demoCdn demoMetaBad)) = []"
    by blast
  moreover have "buildWebflowInfo (\<lambda>p. p) (demoDerived [''ffa''] [''1v1'']) demoRows demoCdn
      demoMetaBad = Inl AssertionError"
    by code_simp
  moreover have "buildWebflowInfo (\<lambda>p. p) (demoDerived [''ffa''] [''1v1'']) demoRows [] demoMeta
     = Inl (MissingDownloadUrl ''Alpha 1.0'')"
    by code_simp
  moreover have "case buildWebflowInfo (\<lambda>p. p) (demoDerived [''ffa''] [''1v1'']) demoRows demoCdn
      demoMeta of Inl _ \<Rightarrow> False | Inr _ \<Rightarrow> True"
    by code_simp
  ultimately show ?thesis by blast
qed


section \<open>Calls made by the phases of a run\<close>

lemma emitsI:
  "(\<And>s. \<exists>new. lg (snd (p s)) = lg s @ new \<and> list_all Q new) \<Longrightarrow> emits lg Q p"
  by (simp add: emits_def)

lemma emitsD: "emits lg Q p \<Longrightarrow> \<exists>new. lg (snd (p s)) = lg s @ new \<and> list_all Q new"
  by (simp add: emits_def)

lemma emits_skip: "emits lg Q (\<lambda>s. (r, s))"
  by (rule emitsI) simp

lemma emits_mono: "emits lg Q p \<Longrightarrow> (\<And>c. Q c \<Longrightarrow> Q' c) \<Longrightarrow> emits lg Q' p"
  unfolding emits_def by (metis (mono_tags, lifting) list.pred_mono_strong)

lemma emits_andThen:
  assumes "emits lg Q p" and "emits lg Q q"
  shows "emits lg Q (andThen p q)"
proof (rule emitsI)
  fix s
  obtain r s1 where p: "p s = (r, s1)" by (cases "p s")
  from emitsD [OF assms(1), of s] p obtain n1 where
    n1: "lg s1 = lg s @ n1" "list_all Q n1" by auto
  show "\<exists>new. lg (snd (andThen p q s)) = lg s @ new \<and> list_all Q new"
  proof (cases r)
    case None
    from emitsD [OF assms(2), of s1] obtain n2 where
      n2: "lg (snd (q s1)) = lg s1 @ n2" "list_all Q n2" by auto
    with n1 p None show ?thesis
      by (intro exI [of _ "n1 @ n2"]) (simp add: andThen_def)
  next
    case (Some e)
    with n1 p show ?thesis
      by (intro exI [of _ n1]) (simp add: andThen_def)
  qed
qed

lemma emits_forEach:
  assumes "\<And>x. emits lg Q (f x)"
  shows "emits lg Q (forEach f xs)"
proof (induction xs)
  case Nil
  have "forEach f [] = (\<lambda>s. (None, s))" by (rule ext) simp
  then show ?case by (simp add: emits_skip)
next
  case (Cons x xs)
  have "forEach f (x # xs) = andThen (f x) (forEach f xs)" by (rule ext) simp
  with emits_andThen [OF assms [of x] Cons] show ?case by simp
qed

lemma emits_steps:
  assumes "\<And>p. p \<in> set ps \<Longrightarrow> emits lg Q p"
  shows "emits lg Q (foldr andThen ps (\<lambda>s. (None, s)))"
  using assms
proof (induction ps)
  case Nil
  show ?case by (simp add: emits_skip)
next
  case (Cons p ps)
  then show ?case by (simp add: emits_andThen)
qed

lemma keeps_skip: "keeps g (\<lambda>s. (r, s))"
  by (simp add: keeps_def)

lemma keeps_andThen: "keeps g p \<Longrightarrow> keeps g q \<Longrightarrow> keeps g (andThen p q)"
  unfolding keeps_def andThen_def
  by (auto split: prod.splits option.splits) (metis snd_conv)+

lemma keeps_forEach:
  assumes "\<And>x. keeps g (f x)"
  shows "keeps g (forEach f xs)"
proof (induction xs)
  case Nil
  have "forEach f [] = (\<lambda>s. (None, s))" by (rule ext) simp
  then show ?case by (simp add: keeps_skip)
next
  case (Cons x xs)
  have "forEach f (x # xs) = andThen (f x) (forEach f xs)" by (rule ext) simp
  with keeps_andThen [OF assms [of x] Cons] show ?case by simp
qed

lemma keeps_steps:
  assumes "\<And>p. p \<in> set ps \<Longrightarrow> keeps g p"
  shows "keeps g (foldr andThen ps (\<lambda>s. (None, s)))"
  using assms
proof (induction ps)
  case Nil
  show ?case by (simp add: keeps_skip)
next
  case (Cons p ps)
  then show ?case by (simp add: keeps_andThen)
qed


lemma emits_storeItem: "emits snd (\<lambda>x. x = c) (storeItem resp c)"
  by (rule emitsI)
    (auto simp: storeItem_def split: prod.splits option.splits sum.splits)

lemma emits_storeMap: "emits snd (\<lambda>x. x = c) (storeMap resp c k)"
  by (rule emitsI)
    (auto simp: storeMap_def split: prod.splits option.splits sum.splits)

lemma emits_storeItem_kind: "Q c \<Longrightarrow> emits snd Q (storeItem resp c)"
  by (rule emits_mono [OF emits_storeItem]) simp

lemma emits_storeMap_kind: "Q c \<Longrightarrow> emits snd Q (storeMap resp c k)"
  by (rule emits_mono [OF emits_storeMap]) simp

lemma emits_additionStep:
  "emits snd (\<lambda>c. \<not> dryRun \<and> collectionOf c = k \<and> \<not> isDelete c)
     (additionStep resp eq k dryRun x)"
proof (rule emitsI)
  fix s :: "IWebflowItem syncSt"
  let ?Q = "\<lambda>c. \<not> dryRun \<and> collectionOf c = k \<and> \<not> isDelete c"
  have st: "\<exists>new. snd (snd (storeItem resp c s)) = snd s @ new \<and> list_all ?Q new"
    if "?Q c" for c
    by (rule emitsD [OF emits_storeItem_kind [of ?Q c resp]]) (rule that)
  have c1: "\<not> dryRun \<Longrightarrow> ?Q (CreateItem k f)" and c2: "\<not> dryRun \<Longrightarrow> ?Q (UpdateItem k i f)"
    for f i
    by (simp_all add: collectionOf_def isDelete_def)
  have skip: "\<exists>new. snd s = snd s @ new \<and> list_all ?Q new"
    by simp
  show "\<exists>new. snd (snd (additionStep resp eq k dryRun x s)) = snd s @ new \<and> list_all ?Q new"
  proof (cases "map_of (fst s) (slug x)")
    case None
    with st [OF c1] skip show ?thesis
      by (cases dryRun) (simp_all add: additionStep_def Let_def)
  next
    case (Some w)
    with st [OF c2] skip show ?thesis
      by (cases dryRun; cases "eq x w") (simp_all add: additionStep_def Let_def)
  qed
qed

lemma emits_removalStep:
  "emits snd (\<lambda>c. \<not> dryRun \<and> collectionOf c = k \<and> isDelete c)
     (removalStep resp k keyOf idOf src dryRun e)"
  by (rule emitsI)
    (auto simp: removalStep_def Let_def collectionOf_def isDelete_def
      split: prod.splits option.splits)

lemma emits_additions:
  "emits snd (\<lambda>c. \<not> dryRun \<and> collectionOf c = k \<and> \<not> isDelete c)
     (syncCollectionToWebflowAdditions resp eq src k dryRun)"
  unfolding syncCollectionToWebflowAdditions_def
  by (rule emits_forEach) (rule emits_additionStep)

lemma emits_removals:
  "emits snd (\<lambda>c. \<not> dryRun \<and> collectionOf c = k \<and> isDelete c)
     (syncCollectionToWebflowRemovals resp k src dryRun)"
proof (rule emitsI)
  fix s :: "IWebflowItem syncSt"
  from emitsD [OF emits_forEach [of snd _
        "removalStep resp k slug (\<lambda>w. itemId (item w)) src dryRun" "fst s"],
      OF emits_removalStep, where s = s]
  show "\<exists>new. snd (snd (syncCollectionToWebflowRemovals resp k src dryRun s)) = snd s @ new \<and>
      list_all (\<lambda>c. \<not> dryRun \<and> collectionOf c = k \<and> isDelete c) new"
    unfolding syncCollectionToWebflowRemovals_def .
qed

lemma emits_mapAddStep:
  "emits (\<lambda>s. snd (fst s)) (\<lambda>c. \<not> dryRun \<and> collectionOf c = MapsCollection)
     (mapAddStep d resp dryRun m)"
proof (rule emitsI)
  fix s :: "WebflowMapInfo syncSt \<times> updates"
  let ?c = "CreateItem MapsCollection (MapFields (WebflowMapInfo_generateFields d m None))"
  from emitsD [OF emits_storeMap [of ?c resp "rowyId m"], of "fst s"]
  obtain new where "snd (snd (storeMap resp ?c (rowyId m) (fst s))) = snd (fst s) @ new"
    "list_all (\<lambda>x. x = ?c) new"
    by blast
  then have "\<exists>new. snd (snd (storeMap resp ?c (rowyId m) (fst s))) = snd (fst s) @ new \<and>
      list_all (\<lambda>c. collectionOf c = MapsCollection) new"
    by (intro exI [of _ new]) (auto simp: list_all_iff collectionOf_def)
  then show "\<exists>new. snd (fst (snd (mapAddStep d resp dryRun m s))) = snd (fst s) @ new \<and>
      list_all (\<lambda>c. \<not> dryRun \<and> collectionOf c = MapsCollection) new"
    unfolding mapAddStep_def Let_def
    by (auto split: option.splits prod.splits)
qed

lemma emits_mapUpdateStep:
  "emits snd (\<lambda>c. \<not> dryRun \<and> collectionOf c = MapsCollection)
     (mapUpdateStep d resp dryRun u)"
proof (rule emitsI)
  fix s :: "WebflowMapInfo syncSt"
  obtain same m w where u: "u = (same, m, w)" by (cases u)
  let ?c = "UpdateItem MapsCollection (itemId (mapItem w))
      (MapFields (WebflowMapInfo_generateFields d m (Some w)))"
  from emitsD [OF emits_storeMap [of ?c resp "rowyId m"], of s]
  obtain new where "snd (snd (storeMap resp ?c (rowyId m) s)) = snd s @ new"
    "list_all (\<lambda>x. x = ?c) new"
    by blast
  then have "\<exists>new. snd (snd (storeMap resp ?c (rowyId m) s)) = snd s @ new \<and>
      list_all (\<lambda>c. collectionOf c = MapsCollection) new"
    by (intro exI [of _ new]) (auto simp: list_all_iff collectionOf_def)
  then show "\<exists>new. snd (snd (mapUpdateStep d resp dryRun u s)) = snd s @ new \<and>
      list_all (\<lambda>c. \<not> dryRun \<and> collectionOf c = MapsCollection) new"
    unfolding mapUpdateStep_def Let_def u
    by auto
qed

lemma emits_syncMaps:
  "emits snd (\<lambda>c. \<not> dryRun \<and> collectionOf c = MapsCollection)
     (syncMapsToWebflow d resp src dryRun)"
proof (rule emitsI)
  fix s :: "WebflowMapInfo syncSt"
  let ?Q = "\<lambda>c. \<not> dryRun \<and> collectionOf c = MapsCollection"
  obtain r s1 ups where
    l1: "forEach (mapAddStep d resp dryRun) (mvalues src) (s, []) = (r, (s1, ups))"
    by (metis prod.exhaust)
  from emitsD [OF emits_forEach [of "\<lambda>s. snd (fst s)" ?Q "mapAddStep d resp dryRun"],
      OF emits_mapAddStep, of "mvalues src" "(s, [])"] l1
  obtain n1 where n1: "snd s1 = snd s @ n1" "list_all ?Q n1"
    by auto
  show "\<exists>new. snd (snd (syncMapsToWebflow d resp src dryRun s)) = snd s @ new \<and> list_all ?Q new"
  proof (cases r)
    case (Some e)
    with l1 n1 show ?thesis
      by (intro exI [of _ n1]) (simp add: syncMapsToWebflow_def)
  next
    case None
    let ?rest = "andThen
        (forEach (removalStep resp MapsCollection rowyId (\<lambda>w. itemId (mapItem w)) src dryRun)
           (fst s1))
        (forEach (mapUpdateStep d resp dryRun) (filter (\<lambda>u. \<not> fst u) ups))"
    have "emits snd ?Q ?rest"
      by (intro emits_andThen emits_forEach emits_mapUpdateStep
          emits_mono [OF emits_removalStep]) simp
    from emitsD [OF this, of s1] obtain n2 where
      n2: "snd (snd (?rest s1)) = snd s1 @ n2" "list_all ?Q n2"
      by blast
    with l1 n1 None show ?thesis
      by (intro exI [of _ "n1 @ n2"]) (simp add: syncMapsToWebflow_def)
  qed
qed

lemma emits_publishChunks:
  "emits (\<lambda>l. l) (\<lambda>c. collectionOf c = k \<and> \<not> isDelete c) (publishChunks resp k ids i)"
proof (rule emitsI)
  fix log
  from publishChunks_batches [of resp k ids i log] obtain bs where
    "snd (publishChunks resp k ids i log) = log @ map (PublishItem k) bs"
    by blast
  then show "\<exists>new. snd (publishChunks resp k ids i log) = log @ new \<and>
      list_all (\<lambda>c. collectionOf c = k \<and> \<not> isDelete c) new"
    by (intro exI [of _ "map (PublishItem k) bs"])
      (simp add: list_all_iff collectionOf_def isDelete_def)
qed

lemma emits_publish:
  "emits (\<lambda>l. l) (\<lambda>c. \<not> dryRun \<and> collectionOf c = k \<and> \<not> isDelete c)
     (publishUpdatedWebflowItems dp resp k items dryRun)"
proof (cases dryRun)
  case True
  then have "publishUpdatedWebflowItems dp resp k items dryRun = (\<lambda>s. (None, s))"
    by (intro ext) (simp add: publishUpdatedWebflowItems_def)
  then show ?thesis by (simp add: emits_skip)
next
  case False
  then have "publishUpdatedWebflowItems dp resp k items dryRun =
      publishChunks resp k (map itemId (filter (needsPublish dp) items)) 0"
    by (intro ext) (simp add: publishUpdatedWebflowItems_def)
  with False emits_publishChunks [of k resp] show ?thesis by simp
qed


lemma emits_onMapTags: "emits snd Q p \<Longrightarrow> emits calls Q (onMapTags p)"
proof (rule emitsI)
  fix s :: syncState assume "emits snd Q p"
  obtain r dest log where p: "p (webflowMapTags s, calls s) = (r, dest, log)"
    by (metis prod_cases3)
  from emitsD [OF \<open>emits snd Q p\<close>, of "(webflowMapTags s, calls s)"] p
  show "\<exists>new. calls (snd (onMapTags p s)) = calls s @ new \<and> list_all Q new"
    by (simp add: onMapTags_def)
qed

lemma emits_onMapTerrains: "emits snd Q p \<Longrightarrow> emits calls Q (onMapTerrains p)"
proof (rule emitsI)
  fix s :: syncState assume "emits snd Q p"
  obtain r dest log where p: "p (webflowMapTerrains s, calls s) = (r, dest, log)"
    by (metis prod_cases3)
  from emitsD [OF \<open>emits snd Q p\<close>, of "(webflowMapTerrains s, calls s)"] p
  show "\<exists>new. calls (snd (onMapTerrains p s)) = calls s @ new \<and> list_all Q new"
    by (simp add: onMapTerrains_def)
qed

lemma emits_onMaps: "emits snd Q p \<Longrightarrow> emits calls Q (onMaps p)"
proof (rule emitsI)
  fix s :: syncState assume "emits snd Q p"
  obtain r dest log where p: "p (webflowMaps s, calls s) = (r, dest, log)"
    by (metis prod_cases3)
  from emitsD [OF \<open>emits snd Q p\<close>, of "(webflowMaps s, calls s)"] p
  show "\<exists>new. calls (snd (onMaps p s)) = calls s @ new \<and> list_all Q new"
    by (simp add: onMaps_def)
qed

lemma emits_onCalls: "emits (\<lambda>l. l) Q p \<Longrightarrow> emits calls Q (onCalls p)"
proof (rule emitsI)
  fix s :: syncState assume "emits (\<lambda>l. l) Q p"
  obtain r log where p: "p (calls s) = (r, log)"
    by (cases "p (calls s)")
  from emitsD [OF \<open>emits (\<lambda>l. l) Q p\<close>, of "calls s"] p
  show "\<exists>new. calls (snd (onCalls p s)) = calls s @ new \<and> list_all Q new"
    by (simp add: onCalls_def)
qed

lemma emits_resolveStep: "emits calls Q (resolveStep f refs dryRun)"
  by (rule emitsI) (auto simp: resolveStep_def split: sum.splits)

lemma emits_dependent:
  assumes "\<And>s. emits lg Q (p s)"
  shows "emits lg Q (\<lambda>s. p s s)"
  using assms unfolding emits_def by blast

text \<open>The first eight statements make no deletion in the tag and terrain collections; the last two make nothing else.\<close>

lemma emits_syncSteps_first:
  "p \<in> set (take 8 (syncSteps d dp resp dryRun tags terrains)) \<Longrightarrow>
     emits calls (\<lambda>c. \<not> dryRun \<and> \<not> isVocabularyDelete c) p"
proof -
  have add: "emits snd (\<lambda>c. \<not> dryRun \<and> \<not> isVocabularyDelete c)
      (syncCollectionToWebflowAdditions resp eq src k dryRun)" for eq src k
    by (rule emits_mono [OF emits_additions]) (simp add: isVocabularyDelete_def)
  have maps: "emits snd (\<lambda>c. \<not> dryRun \<and> \<not> isVocabularyDelete c)
      (syncMapsToWebflow d resp src dryRun)" for src
    by (rule emits_mono [OF emits_syncMaps]) (simp add: isVocabularyDelete_def)
  have pub: "emits (\<lambda>l. l) (\<lambda>c. \<not> dryRun \<and> \<not> isVocabularyDelete c)
      (publishUpdatedWebflowItems dp resp k items dryRun)" for k items
    by (rule emits_mono [OF emits_publish]) (simp add: isVocabularyDelete_def)
  assume "p \<in> set (take 8 (syncSteps d dp resp dryRun tags terrains))"
  then consider
      "p = onMapTags (syncMapTagsToWebflowAdditions resp tags dryRun)"
    | "p = resolveStep FieldMapTags webflowMapTags dryRun"
    | "p = onMapTerrains (syncMapTerrainsToWebflowAdditions resp terrains dryRun)"
    | "p = resolveStep FieldMapTerrains webflowMapTerrains dryRun"
    | "p = (\<lambda>s. onMaps (syncMapsToWebflow d resp (rowyMapsInfo s) dryRun) s)"
    | "p = (\<lambda>s. onCalls (publishUpdatedWebflowItems dp resp MapTerrainsCollection
                      (map item (mvalues (webflowMapTerrains s))) dryRun) s)"
    | "p = (\<lambda>s. onCalls (publishUpdatedWebflowItems dp resp MapTagsCollection
                      (map item (mvalues (webflowMapTags s))) dryRun) s)"
    | "p = (\<lambda>s. onCalls (publishUpdatedWebflowItems dp resp MapsCollection
                      (map mapItem (mvalues (webflowMaps s))) dryRun) s)"
    by (auto simp: syncSteps_def)
  then show ?thesis
  proof cases
    case 1
    then show ?thesis
      by (simp add: syncMapTagsToWebflowAdditions_def emits_onMapTags add)
  next
    case 2
    then show ?thesis by (simp add: emits_resolveStep)
  next
    case 3
    then show ?thesis
      by (simp add: syncMapTerrainsToWebflowAdditions_def emits_onMapTerrains add)
  next
    case 4
    then show ?thesis by (simp add: emits_resolveStep)
  next
    case 5
    then show ?thesis
      by (simp add: emits_dependent [of calls _ "\<lambda>s. onMaps (syncMapsToWebflow d resp (rowyMapsInfo s) dryRun)"]
          emits_onMaps maps)
  next
    case 6
    then show ?thesis
      by (simp add: emits_dependent [of calls _ "\<lambda>s. onCalls (publishUpdatedWebflowItems dp resp
            MapTerrainsCollection (map item (mvalues (webflowMapTerrains s))) dryRun)"]
          emits_onCalls pub)
  next
    case 7
    then show ?thesis
      by (simp add: emits_dependent [of calls _ "\<lambda>s. onCalls (publishUpdatedWebflowItems dp resp
            MapTagsCollection (map item (mvalues (webflowMapTags s))) dryRun)"]
          emits_onCalls pub)
  next
    case 8
    then show ?thesis
      by (simp add: emits_dependent [of calls _ "\<lambda>s. onCalls (publishUpdatedWebflowItems dp resp
            MapsCollection (map mapItem (mvalues (webflowMaps s))) dryRun)"]
          emits_onCalls pub)
  qed
qed

lemma emits_syncSteps_last:
  "p \<in> set (drop 8 (syncSteps d dp resp dryRun tags terrains)) \<Longrightarrow>
     emits calls (\<lambda>c. \<not> dryRun \<and> isVocabularyDelete c) p"
proof -
  have rem: "emits snd (\<lambda>c. \<not> dryRun \<and> isVocabularyDelete c)
      (syncCollectionToWebflowRemovals resp k src dryRun)"
    if "k = MapTagsCollection \<or> k = MapTerrainsCollection" for src k
    by (rule emits_mono [OF emits_removals]) (use that in \<open>auto simp: isVocabularyDelete_def\<close>)
  assume "p \<in> set (drop 8 (syncSteps d dp resp dryRun tags terrains))"
  then consider "p = onMapTags (syncMapTagsToWebflowRemovals resp tags dryRun)"
    | "p = onMapTerrains (syncMapTerrainsToWebflowRemovals resp terrains dryRun)"
    by (auto simp: syncSteps_def)
  then show ?thesis
  proof cases
    case 1
    then show ?thesis
      by (simp add: syncMapTagsToWebflowRemovals_def emits_onMapTags rem)
  next
    case 2
    then show ?thesis
      by (simp add: syncMapTerrainsToWebflowRemovals_def emits_onMapTerrains rem)
  qed
qed

lemma andThen_assoc: "andThen (andThen p q) r = andThen p (andThen q r)"
  by (rule ext) (simp add: andThen_def split: prod.splits option.splits)

lemma andThen_skip: "andThen (\<lambda>s. (None, s)) p = p"
  by (rule ext) (simp add: andThen_def)

lemma foldr_andThen_append:
  "foldr andThen (ps @ qs) z = andThen (foldr andThen ps (\<lambda>s. (None, s))) (foldr andThen qs z)"
  by (induction ps) (simp_all add: andThen_skip andThen_assoc)


section \<open>The order of the calls\<close>

lemma syncCommand_calls_split:
  "\<exists>pre post.
     calls (snd (syncCommand env dryRun mapItems tagItems terrainItems rows cdn metas)) = pre @ post
     \<and> list_all (\<lambda>c. \<not> dryRun \<and> \<not> isVocabularyDelete c) pre
     \<and> list_all (\<lambda>c. \<not> dryRun \<and> isVocabularyDelete c) post"
proof (cases "readDestination mapItems tagItems terrainItems")
  case (Inl e)
  then show ?thesis
    by (intro exI [of _ "[]"]) (simp add: syncCommand_def syncFrom_def emptyState_def)
next
  case (Inr s0)
  note s0 = this
  show ?thesis
  proof (cases "buildWebflowInfo (encodeURI env) (getDerivedInfo env) rows cdn metas")
    case (Inl e)
    with s0 show ?thesis
      by (intro exI [of _ "[]"]) (simp add: syncCommand_def syncFrom_def readDestination_calls)
  next
    case (Inr b)
    obtain infos tags where b: "b = (infos, tags)" by (cases b)
    let ?steps = "syncSteps (digest env) (dateParse env) (remote env) dryRun tags
        getRowyMapTerrains"
    let ?first = "foldr andThen (take 8 ?steps) (\<lambda>s. (None, s))"
    let ?last = "foldr andThen (drop 8 ?steps) (\<lambda>s. (None, s))"
    let ?s = "s0\<lparr>rowyMapsInfo := infos\<rparr>"
    have run: "syncCommand env dryRun mapItems tagItems terrainItems rows cdn metas =
        andThen ?first ?last ?s"
      using s0 Inr b foldr_andThen_append [of "take 8 ?steps" "drop 8 ?steps" "\<lambda>s. (None, s)"]
      by (simp add: syncCommand_def syncFrom_def)
    have e1: "emits calls (\<lambda>c. \<not> dryRun \<and> \<not> isVocabularyDelete c) ?first"
      by (rule emits_steps) (rule emits_syncSteps_first)
    have e2: "emits calls (\<lambda>c. \<not> dryRun \<and> isVocabularyDelete c) ?last"
      by (rule emits_steps) (rule emits_syncSteps_last)
    obtain r s1 where f: "?first ?s = (r, s1)" by (cases "?first ?s")
    from emitsD [OF e1, of ?s] f s0 obtain pre where
      pre: "calls s1 = pre" "list_all (\<lambda>c. \<not> dryRun \<and> \<not> isVocabularyDelete c) pre"
      by (auto simp: readDestination_calls)
    show ?thesis
    proof (cases r)
      case (Some e)
      with f pre show ?thesis
        unfolding run by (intro exI [of _ pre] exI [of _ "[]"]) (simp add: andThen_def)
    next
      case None
      from emitsD [OF e2, of s1] obtain post where
        "calls (snd (?last s1)) = calls s1 @ post"
        "list_all (\<lambda>c. \<not> dryRun \<and> isVocabularyDelete c) post"
        by blast
      with f pre None show ?thesis
        unfolding run by (intro exI [of _ pre] exI [of _ post]) (simp add: andThen_def)
    qed
  qed
qed

text \<open>
  C6. In every run the calls fall into two parts: first come all the calls that are not
  deletions in the tag or terrain collection, and with them every call on the maps
  collection; the deletions of tags and terrains come after them. So no deletion of a tag
  or terrain is followed by a call on the maps collection.
\<close>

theorem removal_after_maps:
  "(\<exists>pre post.
      calls (snd (syncCommand env dryRun mapItems tagItems terrainItems rows cdn metas)) = pre @ post
      \<and> list_all (\<lambda>c. \<not> isVocabularyDelete c) pre \<and> list_all isVocabularyDelete post)
   \<and> (\<forall>i j. i < j
         \<and> j < length (calls (snd (syncCommand env dryRun mapItems tagItems terrainItems rows cdn metas)))
         \<and> isVocabularyDelete
             (calls (snd (syncCommand env dryRun mapItems tagItems terrainItems rows cdn metas)) ! i)
       \<longrightarrow> collectionOf
             (calls (snd (syncCommand env dryRun mapItems tagItems terrainItems rows cdn metas)) ! j)
           \<noteq> MapsCollection)"
proof -
  let ?log = "calls (snd (syncCommand env dryRun mapItems tagItems terrainItems rows cdn metas))"
  from syncCommand_calls_split [of env dryRun mapItems tagItems terrainItems rows cdn metas]
  obtain pre post where
    split: "?log = pre @ post" and pre: "list_all (\<lambda>c. \<not> isVocabularyDelete c) pre"
    and post: "list_all isVocabularyDelete post"
    by (auto simp: list_all_iff)
  have order: "collectionOf (?log ! j) \<noteq> MapsCollection"
    if "i < j" "j < length ?log" "isVocabularyDelete (?log ! i)" for i j
  proof -
    from that(3) pre split have "\<not> i < length pre"
      by (auto simp: list_all_length nth_append)
    with that(1) have "\<not> j < length pre" by simp
    with that(2) split post have "isVocabularyDelete (?log ! j)"
      by (auto simp: list_all_length nth_append)
    then show ?thesis by (auto simp: isVocabularyDelete_def)
  qed
  from split pre post order show ?thesis by blast
qed


lemma demoRun_outline:
  "map outline (calls (snd (demoRun False))) =
     [(Create, MapTagsCollection, [''1v1'']),
      (Create, MapsCollection, [''beta'']),
      (Delete, MapsCollection, [''m-r0'']),
      (Update, MapsCollection, [''m-r1'']),
      (Publish, MapTagsCollection, [''new-1v1'']),
      (Publish, MapsCollection, [''m-r1'', ''new-beta'']),
      (Delete, MapTagsCollection, [''t-old'']),
      (Delete, MapTerrainsCollection, [''x-mud''])]"
  by code_simp

lemma outline_kind:
  "isVocabularyDelete c \<longleftrightarrow>
     fst (outline c) = Delete \<and>
     (fst (snd (outline c)) = MapTagsCollection \<or> fst (snd (outline c)) = MapTerrainsCollection)"
  by (cases c) (simp_all add: outline_def isVocabularyDelete_def isDelete_def collectionOf_def)

lemma outline_collection: "collectionOf c = fst (snd (outline c))"
  by (cases c) (simp_all add: outline_def collectionOf_def)

theorem removal_after_maps_witness:
  "map outline (calls (snd (demoRun False))) =
     [(Create, MapTagsCollection, [''1v1'']),
      (Create, MapsCollection, [''beta'']),
      (Delete, MapsCollection, [''m-r0'']),
      (Update, MapsCollection, [''m-r1'']),
      (Publish, MapTagsCollection, [''new-1v1'']),
      (Publish, MapsCollection, [''m-r1'', ''new-beta'']),
      (Delete, MapTagsCollection, [''t-old'']),
      (Delete, MapTerrainsCollection, [''x-mud''])]
   \<and> isVocabularyDelete (calls (snd (demoRun False)) ! 6)
   \<and> collectionOf (calls (snd (demoRun False)) ! 7) \<noteq> MapsCollection"
proof -
  let ?log = "calls (snd (demoRun False))"
  have len: "length ?log = 8"
    using arg_cong [OF demoRun_outline, of length] by simp
  have o6: "outline (?log ! 6) = (Delete, MapTagsCollection, [''t-old''])"
    using arg_cong [OF demoRun_outline, of "\<lambda>l. l ! 6"] len by simp
  then have d6: "isVocabularyDelete (?log ! 6)"
    by (simp add: outline_kind)
  from removal_after_maps [of "demoEnv [''ffa''] [''1v1''] echoRemote" False demoMapItems
      demoTagItems demoTerrainItems demoRows demoCdn demoMeta]
  have "\<forall>i j. i < j \<and> j < length ?log \<and> isVocabularyDelete (?log ! i) \<longrightarrow>
      collectionOf (?log ! j) \<noteq> MapsCollection"
    unfolding demoRun_def by blast
  then have "(6::nat) < 7 \<and> 7 < length ?log \<and> isVocabularyDelete (?log ! 6) \<longrightarrow>
      collectionOf (?log ! 7) \<noteq> MapsCollection"
    by blast
  with len d6 have "collectionOf (?log ! 7) \<noteq> MapsCollection" by simp
  with demoRun_outline d6 show ?thesis by blast
qed


section \<open>Dry runs and reference resolution\<close>

lemma keepsD: "keeps g p \<Longrightarrow> p s = (r, s') \<Longrightarrow> g s' = g s"
  unfolding keeps_def by (metis snd_conv)

lemma keeps_snd: "keeps (\<lambda>s. s) p \<Longrightarrow> snd (p s) = s"
  by (simp add: keeps_def)

lemma keeps_additions_dry: "keeps (\<lambda>s. s) (syncCollectionToWebflowAdditions resp eq src k True)"
  unfolding syncCollectionToWebflowAdditions_def
  by (rule keeps_forEach) (simp add: keeps_def additionStep_def Let_def split: option.splits)

lemma keeps_removalStep_dry: "keeps (\<lambda>s. s) (removalStep resp k keyOf idOf src True e)"
  by (simp add: keeps_def removalStep_def split: prod.splits)

lemma keeps_removals_dry: "keeps (\<lambda>s. s) (syncCollectionToWebflowRemovals resp k src True)"
  unfolding keeps_def
proof
  fix s :: "IWebflowItem syncSt"
  from keeps_snd [OF keeps_forEach [of "\<lambda>s. s"
        "removalStep resp k slug (\<lambda>w. itemId (item w)) src True" "fst s",
        OF keeps_removalStep_dry], of s]
  show "snd (syncCollectionToWebflowRemovals resp k src True s) = s"
    by (simp add: syncCollectionToWebflowRemovals_def)
qed

lemma keeps_syncMaps_dry: "keeps (\<lambda>s. s) (syncMapsToWebflow d resp src True)"
proof -
  have add: "keeps fst (forEach (mapAddStep d resp True) xs)" for xs
    by (rule keeps_forEach) (simp add: keeps_def mapAddStep_def Let_def split: option.splits)
  have rest: "keeps (\<lambda>s. s)
      (andThen (forEach (removalStep resp MapsCollection rowyId (\<lambda>w. itemId (mapItem w)) src True) xs)
         (forEach (mapUpdateStep d resp True) us))" for xs us
    by (intro keeps_andThen keeps_forEach keeps_removalStep_dry)
      (simp add: keeps_def mapUpdateStep_def split: prod.splits)
  show ?thesis
    unfolding keeps_def
  proof
    fix s :: "WebflowMapInfo syncSt"
    obtain r s1 ups where
      l1: "forEach (mapAddStep d resp True) (mvalues src) (s, []) = (r, (s1, ups))"
      by (metis prod.exhaust)
    from keepsD [OF add l1] have s1: "s1 = s"
      by simp
    show "snd (syncMapsToWebflow d resp src True s) = s"
      using l1 s1 keeps_snd [OF rest [of "fst s" "filter (\<lambda>u. \<not> fst u) ups"], of s]
      by (cases r) (simp_all add: syncMapsToWebflow_def)
  qed
qed

lemma keeps_publish_dry: "keeps (\<lambda>l. l) (publishUpdatedWebflowItems dp resp k items True)"
  by (simp add: keeps_def publishUpdatedWebflowItems_def)

lemma keeps_onMapTags: "keeps (\<lambda>s. s) p \<Longrightarrow> keeps destOf (onMapTags p)"
  unfolding keeps_def [of destOf]
proof
  fix s :: syncState assume k: "keeps (\<lambda>s. s) p"
  obtain r dest log where p: "p (webflowMapTags s, calls s) = (r, dest, log)"
    by (metis prod_cases3)
  from keepsD [OF k p] p show "destOf (snd (onMapTags p s)) = destOf s"
    by (simp add: onMapTags_def destOf_def)
qed

lemma keeps_onMapTerrains: "keeps (\<lambda>s. s) p \<Longrightarrow> keeps destOf (onMapTerrains p)"
  unfolding keeps_def [of destOf]
proof
  fix s :: syncState assume k: "keeps (\<lambda>s. s) p"
  obtain r dest log where p: "p (webflowMapTerrains s, calls s) = (r, dest, log)"
    by (metis prod_cases3)
  from keepsD [OF k p] p show "destOf (snd (onMapTerrains p s)) = destOf s"
    by (simp add: onMapTerrains_def destOf_def)
qed

lemma keeps_onMaps: "keeps (\<lambda>s. s) p \<Longrightarrow> keeps destOf (onMaps p)"
  unfolding keeps_def [of destOf]
proof
  fix s :: syncState assume k: "keeps (\<lambda>s. s) p"
  obtain r dest log where p: "p (webflowMaps s, calls s) = (r, dest, log)"
    by (metis prod_cases3)
  from keepsD [OF k p] p show "destOf (snd (onMaps p s)) = destOf s"
    by (simp add: onMaps_def destOf_def)
qed

lemma keeps_onCalls: "keeps (\<lambda>l. l) p \<Longrightarrow> keeps destOf (onCalls p)"
  unfolding keeps_def [of destOf]
proof
  fix s :: syncState assume k: "keeps (\<lambda>l. l) p"
  obtain r log where p: "p (calls s) = (r, log)"
    by (cases "p (calls s)")
  from keepsD [OF k p] p show "destOf (snd (onCalls p s)) = destOf s"
    by (simp add: onCalls_def destOf_def)
qed

lemma keeps_resolveStep: "keeps destOf (resolveStep f refs dryRun)"
  by (simp add: keeps_def resolveStep_def destOf_def split: sum.splits)

lemma keeps_dependent: "(\<And>s. keeps g (p s)) \<Longrightarrow> keeps g (\<lambda>s. p s s)"
  by (simp add: keeps_def)

lemma keeps_syncSteps_dry:
  assumes "p \<in> set (syncSteps d dp resp True tags terrains)"
  shows "keeps destOf p"
proof -
  have pub: "keeps destOf (\<lambda>s. onCalls (publishUpdatedWebflowItems dp resp k (items s) True) s)"
    for k and items :: "syncState \<Rightarrow> CollectionItem list"
    by (rule keeps_dependent [of destOf
          "\<lambda>s. onCalls (publishUpdatedWebflowItems dp resp k (items s) True)"])
      (rule keeps_onCalls [OF keeps_publish_dry])
  have maps: "keeps destOf (\<lambda>s. onMaps (syncMapsToWebflow d resp (rowyMapsInfo s) True) s)"
    by (rule keeps_dependent [of destOf
          "\<lambda>s. onMaps (syncMapsToWebflow d resp (rowyMapsInfo s) True)"])
      (rule keeps_onMaps [OF keeps_syncMaps_dry])
  from assms consider
      "p = onMapTags (syncMapTagsToWebflowAdditions resp tags True)"
    | "p = resolveStep FieldMapTags webflowMapTags True"
    | "p = onMapTerrains (syncMapTerrainsToWebflowAdditions resp terrains True)"
    | "p = resolveStep FieldMapTerrains webflowMapTerrains True"
    | "p = (\<lambda>s. onMaps (syncMapsToWebflow d resp (rowyMapsInfo s) True) s)"
    | "p = (\<lambda>s. onCalls (publishUpdatedWebflowItems dp resp MapTerrainsCollection
                      (map item (mvalues (webflowMapTerrains s))) True) s)"
    | "p = (\<lambda>s. onCalls (publishUpdatedWebflowItems dp resp MapTagsCollection
                      (map item (mvalues (webflowMapTags s))) True) s)"
    | "p = (\<lambda>s. onCalls (publishUpdatedWebflowItems dp resp MapsCollection
                      (map mapItem (mvalues (webflowMaps s))) True) s)"
    | "p = onMapTags (syncMapTagsToWebflowRemovals resp tags True)"
    | "p = onMapTerrains (syncMapTerrainsToWebflowRemovals resp terrains True)"
    by (auto simp: syncSteps_def)
  then show ?thesis
  proof cases
    case 1
    then show ?thesis
      by (simp add: syncMapTagsToWebflowAdditions_def keeps_onMapTags keeps_additions_dry)
  next
    case 2
    then show ?thesis by (simp add: keeps_resolveStep)
  next
    case 3
    then show ?thesis
      by (simp add: syncMapTerrainsToWebflowAdditions_def keeps_onMapTerrains
          keeps_additions_dry)
  next
    case 4
    then show ?thesis by (simp add: keeps_resolveStep)
  next
    case 5
    with maps show ?thesis by simp
  next
    case 6
    with pub [of MapTerrainsCollection "\<lambda>s. map item (mvalues (webflowMapTerrains s))"]
    show ?thesis by simp
  next
    case 7
    with pub [of MapTagsCollection "\<lambda>s. map item (mvalues (webflowMapTags s))"]
    show ?thesis by simp
  next
    case 8
    with pub [of MapsCollection "\<lambda>s. map mapItem (mvalues (webflowMaps s))"]
    show ?thesis by simp
  next
    case 9
    then show ?thesis
      by (simp add: syncMapTagsToWebflowRemovals_def keeps_onMapTags keeps_removals_dry)
  next
    case 10
    then show ?thesis
      by (simp add: syncMapTerrainsToWebflowRemovals_def keeps_onMapTerrains
          keeps_removals_dry)
  qed
qed

lemma syncCommand_dry_dest:
  assumes "readDestination mapItems tagItems terrainItems = Inr s0"
  shows "destOf (snd (syncCommand env True mapItems tagItems terrainItems rows cdn metas)) =
      destOf s0"
proof (cases "buildWebflowInfo (encodeURI env) (getDerivedInfo env) rows cdn metas")
  case (Inl e)
  with assms show ?thesis by (simp add: syncCommand_def syncFrom_def)
next
  case (Inr b)
  obtain infos tags where b: "b = (infos, tags)" by (cases b)
  have "keeps destOf (foldr andThen
      (syncSteps (digest env) (dateParse env) (remote env) True tags getRowyMapTerrains)
      (\<lambda>s. (None, s)))"
    by (rule keeps_steps) (rule keeps_syncSteps_dry)
  with assms Inr b show ?thesis
    by (simp add: syncCommand_def syncFrom_def keeps_def destOf_def)
qed

lemma mapM_total: "(\<And>x. f x = Inr (g x)) \<Longrightarrow> mapM f xs = Inr (map g xs)"
  by (induction xs) simp_all

lemma mapM_Inl: "mapM f xs = Inl e \<Longrightarrow> \<exists>x\<in>set xs. f x = Inl e"
  by (induction xs) (auto split: sum.splits)

lemma mapM_fails: "x \<in> set xs \<Longrightarrow> f x = Inl e \<Longrightarrow> \<exists>e'. mapM f xs = Inl e'"
  by (induction xs) (auto split: sum.splits)

lemma resolve_dry:
  "resolveItemRefsInMapInfos infos f refs True =
     Inr (map (\<lambda>e. (fst e,
                 setField f
                   (map (\<lambda>r. case map_of refs r of None \<Rightarrow> r | Some t \<Rightarrow> itemId (item t))
                      (getField f (snd e)))
                   (snd e))) infos)"
proof -
  have ref: "mapM (resolveRef f refs True) rs =
      Inr (map (\<lambda>r. case map_of refs r of None \<Rightarrow> r | Some t \<Rightarrow> itemId (item t)) rs)" for rs
    by (rule mapM_total) (simp add: resolveRef_def split: option.splits)
  show ?thesis
    unfolding resolveItemRefsInMapInfos_def
    by (rule mapM_total) (simp add: resolveOne_def ref)
qed

lemma resolve_missing:
  assumes "e \<in> set infos" "r \<in> set (getField f (snd e))" "map_of refs r = None"
  shows "\<exists>r'. map_of refs r' = None \<and>
      resolveItemRefsInMapInfos infos f refs False = Inl (MissingRef (fieldName f) r')"
proof -
  have "resolveRef f refs False r = Inl (MissingRef (fieldName f) r)"
    using assms(3) by (simp add: resolveRef_def)
  from mapM_fails [of r _ "resolveRef f refs False", OF assms(2) this] obtain e1 where
    "mapM (resolveRef f refs False) (getField f (snd e)) = Inl e1" ..
  then have "resolveOne f refs False e = Inl e1"
    by (simp add: resolveOne_def)
  from mapM_fails [of e _ "resolveOne f refs False", OF assms(1) this] obtain err where
    err: "resolveItemRefsInMapInfos infos f refs False = Inl err"
    unfolding resolveItemRefsInMapInfos_def ..
  from mapM_Inl [OF err [unfolded resolveItemRefsInMapInfos_def]] obtain e' where
    "resolveOne f refs False e' = Inl err" ..
  then have "mapM (resolveRef f refs False) (getField f (snd e')) = Inl err"
    by (simp add: resolveOne_def split: sum.splits)
  from mapM_Inl [OF this] obtain r' where "resolveRef f refs False r' = Inl err" ..
  then have "map_of refs r' = None \<and> err = MissingRef (fieldName f) r'"
    by (simp add: resolveRef_def split: option.splits)
  with err show ?thesis by blast
qed


text \<open>
  C2. A dry run makes no call and leaves the three Maps read from the destination as
  they were, whatever the source and the destination hold and however the run ends. In
  a dry run the resolution of references never fails: a reference that the destination
  has is replaced by the identifier of its item and any other is kept as it is. Outside
  a dry run, a reference that the destination lacks stops the resolution with the error
  that names the field and a missing reference.
\<close>

theorem dry_run_pure:
  "calls (snd (syncCommand env True mapItems tagItems terrainItems rows cdn metas)) = []
   \<and> (readDestination mapItems tagItems terrainItems = Inr s0 \<longrightarrow>
        destOf (snd (syncCommand env True mapItems tagItems terrainItems rows cdn metas)) =
          destOf s0)
   \<and> resolveItemRefsInMapInfos infos f refs True =
        Inr (map (\<lambda>e. (fst e,
                    setField f
                      (map (\<lambda>r. case map_of refs r of None \<Rightarrow> r | Some t \<Rightarrow> itemId (item t))
                         (getField f (snd e)))
                      (snd e))) infos)
   \<and> (e \<in> set infos \<and> r \<in> set (getField f (snd e)) \<and> map_of refs r = None \<longrightarrow>
        (\<exists>r'. map_of refs r' = None \<and>
           resolveItemRefsInMapInfos infos f refs False = Inl (MissingRef (fieldName f) r')))"
proof (intro conjI impI)
  from syncCommand_calls_split [of env True mapItems tagItems terrainItems rows cdn metas]
  obtain pre post where
    "calls (snd (syncCommand env True mapItems tagItems terrainItems rows cdn metas)) = pre @ post"
    "list_all (\<lambda>c. False) pre" "list_all (\<lambda>c. False) post"
    by auto
  then show "calls (snd (syncCommand env True mapItems tagItems terrainItems rows cdn metas)) = []"
    by (cases pre; cases post) simp_all
next
  assume "readDestination mapItems tagItems terrainItems = Inr s0"
  then show "destOf (snd (syncCommand env True mapItems tagItems terrainItems rows cdn metas)) =
      destOf s0"
    by (rule syncCommand_dry_dest)
next
  show "resolveItemRefsInMapInfos infos f refs True =
        Inr (map (\<lambda>e. (fst e,
                    setField f
                      (map (\<lambda>r. case map_of refs r of None \<Rightarrow> r | Some t \<Rightarrow> itemId (item t))
                         (getField f (snd e)))
                      (snd e))) infos)"
    by (rule resolve_dry)
next
  assume "e \<in> set infos \<and> r \<in> set (getField f (snd e)) \<and> map_of refs r = None"
  then show "\<exists>r'. map_of refs r' = None \<and>
      resolveItemRefsInMapInfos infos f refs False = Inl (MissingRef (fieldName f) r')"
    using resolve_missing by blast
qed

lemma demoRun_dry:
  "fst (demoRun True) = None
   \<and> map (\<lambda>e. mapTags (snd e)) (rowyMapsInfo (snd (demoRun True))) = [[''t-ffa''], [''1v1'']]
   \<and> map itemId demoMapItems = [''m-r1'', ''m-r0'']"
  by code_simp

lemma demoInfos_unresolved:
  "resolveItemRefsInMapInfos demoInfos FieldMapTags [] False = Inl (MissingRef ''mapTags'' ''ffa'')
   \<and> map (\<lambda>e. mapTags (snd e)) demoInfos = [[''ffa''], [''1v1'']]"
  by code_simp

theorem dry_run_pure_witness:
  "calls (snd (demoRun True)) = []
   \<and> fst (demoRun True) = None
   \<and> map (\<lambda>e. mapTags (snd e)) (rowyMapsInfo (snd (demoRun True))) = [[''t-ffa''], [''1v1'']]
   \<and> resolveItemRefsInMapInfos demoInfos FieldMapTags [] False =
       Inl (MissingRef ''mapTags'' ''ffa'')"
proof -
  from dry_run_pure [of "demoEnv [''ffa''] [''1v1''] echoRemote" demoMapItems demoTagItems
      demoTerrainItems demoRows demoCdn demoMeta]
  have "calls (snd (demoRun True)) = []"
    unfolding demoRun_def by blast
  with demoRun_dry demoInfos_unresolved show ?thesis by blast
qed


section \<open>Items that lack fields\<close>





















section \<open>A second run after a completed one\<close>

lemma storedAsWritten_prefix:
  assumes "storedAsWritten d resp src L" and "prefix (P @ [c]) L"
  shows "answered d resp src P c"
proof -
  from assms(2) obtain rest where L: "L = P @ c # rest"
    by (auto simp: prefix_def)
  then have "length P < length L" "take (length P) L = P" "L ! length P = c"
    by simp_all
  with assms(1) show ?thesis
    unfolding storedAsWritten_def list_all_iff by (metis atLeastLessThan_iff set_upt zero_le)
qed

lemma set_update_subset: "set (AList.update k v al) \<subseteq> insert (k, v) (set al)"
  by (induction al) auto

lemma in_update: "e \<in> set (AList.update k v al) \<Longrightarrow> e = (k, v) \<or> e \<in> set al"
  using set_update_subset by fastforce

text \<open>Tags and terrains: what a completed loop of additions leaves.\<close>

lemma storeItem_echoed:
  assumes "storeItem resp c (dest, log) = (None, (dest', log'))"
    and "c = CreateItem k (TagFields n s) \<or> c = UpdateItem k i (TagFields n s)"
    and "answered d resp src log c"
  shows "log' = log @ [c] \<and> (\<exists>w. dest' = AList.update s w dest \<and> name w = n \<and> slug w = s)"
  using assms
  by (auto simp: storeItem_def answered_def echoed_def WebflowMapTag_new_def
      split: option.splits if_splits sum.splits)

lemma storeItem_log: "storeItem resp c (dest, log) = (r, (dest', log')) \<Longrightarrow> log' = log @ [c]"
  by (auto simp: storeItem_def split: option.splits if_splits sum.splits)

lemma additionStep_done:
  assumes step: "additionStep resp isWebsiteMapTagEqual k False x (dest, log) = (None, (dest', log'))"
    and ans: "\<And>c. log' = log @ [c] \<Longrightarrow> answered d resp src log c"
  shows "(\<exists>w. map_of dest' (slug x) = Some w \<and> isWebsiteMapTagEqual x w)
     \<and> (\<forall>j. j \<noteq> slug x \<longrightarrow> map_of dest' j = map_of dest j)
     \<and> ((\<forall>e\<in>set dest. slug (snd e) = fst e) \<longrightarrow> (\<forall>e\<in>set dest'. slug (snd e) = fst e))
     \<and> prefix log log'"
proof -
  have upd: ?thesis
    if "storeItem resp c (dest, log) = (None, (dest', log'))"
      "c = CreateItem k (TagFields (name x) (slug x))
       \<or> c = UpdateItem k i (TagFields (name x) (slug x))" for c i
  proof -
    from storeItem_log [OF that(1)] have lg: "log' = log @ [c]" .
    from storeItem_echoed [OF that(1) that(2) ans [OF lg]] obtain w where
      "dest' = AList.update (slug x) w dest" "name w = name x" "slug w = slug x"
      by blast
    with lg show ?thesis
      by (auto simp: update_conv' isWebsiteMapTagEqual_def dest!: in_update)
  qed
  show ?thesis
  proof (cases "map_of dest (slug x)")
    case None
    with step show ?thesis
      by (intro upd [of "CreateItem k (TagFields (name x) (slug x))"])
        (simp_all add: additionStep_def WebflowMapTag_generateFields_def)
  next
    case (Some w0)
    show ?thesis
    proof (cases "isWebsiteMapTagEqual x w0")
      case True
      with step Some show ?thesis by (simp add: additionStep_def)
    next
      case False
      with step Some show ?thesis
        by (intro upd [of "UpdateItem k (itemId (item w0)) (TagFields (name x) (slug x))"
              "itemId (item w0)"])
          (simp_all add: additionStep_def WebflowMapTag_generateFields_def)
    qed
  qed
qed


lemma andThen_None:
  "andThen p q s = (None, s') \<Longrightarrow> \<exists>s1. p s = (None, s1) \<and> q s1 = (None, s')"
  by (cases "p s") (auto simp: andThen_def split: option.splits)

lemma forEach_Cons_None:
  "forEach f (x # xs) s = (None, s') \<Longrightarrow> \<exists>s1. f x s = (None, s1) \<and> forEach f xs s1 = (None, s')"
  by (simp add: andThen_None)

lemma additions_done:
  assumes "forEach (additionStep resp isWebsiteMapTagEqual k False) xs (dest, log) =
      (None, (dest', log'))"
    and "\<And>P c. prefix (P @ [c]) log' \<Longrightarrow> answered d resp src P c"
    and "distinct (map slug xs)"
  shows "(\<forall>x\<in>set xs. \<exists>w. map_of dest' (slug x) = Some w \<and> isWebsiteMapTagEqual x w)
     \<and> (\<forall>j. j \<notin> slug ` set xs \<longrightarrow> map_of dest' j = map_of dest j)
     \<and> ((\<forall>e\<in>set dest. slug (snd e) = fst e) \<longrightarrow> (\<forall>e\<in>set dest'. slug (snd e) = fst e))
     \<and> prefix log log'"
  using assms
proof (induction xs arbitrary: dest log)
  case Nil
  then show ?case by simp
next
  case (Cons x xs)
  from forEach_Cons_None [OF Cons.prems(1)] obtain dest1 log1 where
    one: "additionStep resp isWebsiteMapTagEqual k False x (dest, log) = (None, (dest1, log1))"
    and rest: "forEach (additionStep resp isWebsiteMapTagEqual k False) xs (dest1, log1) =
      (None, (dest', log'))"
    by auto
  from Cons.prems(3) have dist: "distinct (map slug xs)" and fresh: "slug x \<notin> slug ` set xs"
    by auto
  note ih = Cons.IH [OF rest Cons.prems(2) dist]
  note i1 = ih [THEN conjunct1] and i2 = ih [THEN conjunct2, THEN conjunct1]
    and i3 = ih [THEN conjunct2, THEN conjunct2, THEN conjunct1]
    and i4 = ih [THEN conjunct2, THEN conjunct2, THEN conjunct2]
  have "answered d resp src log c" if "log1 = log @ [c]" for c
    using i4 that Cons.prems(2) [of log c] by simp
  note s1 = additionStep_done [OF one this]
  note a1 = s1 [THEN conjunct1] and a2 = s1 [THEN conjunct2, THEN conjunct1]
    and a3 = s1 [THEN conjunct2, THEN conjunct2, THEN conjunct1]
    and a4 = s1 [THEN conjunct2, THEN conjunct2, THEN conjunct2]
  from a1 obtain w where w: "map_of dest1 (slug x) = Some w" "isWebsiteMapTagEqual x w"
    by blast
  from i2 fresh have "map_of dest' (slug x) = map_of dest1 (slug x)" by blast
  with w have a: "\<exists>w. map_of dest' (slug x) = Some w \<and> isWebsiteMapTagEqual x w"
    by simp
  show ?case
  proof (intro conjI allI impI)
    show "\<forall>x\<in>set (x # xs). \<exists>w. map_of dest' (slug x) = Some w \<and> isWebsiteMapTagEqual x w"
      using a i1 by simp
  next
    fix j assume "j \<notin> slug ` set (x # xs)"
    then have "j \<noteq> slug x" "j \<notin> slug ` set xs" by auto
    with a2 i2 show "map_of dest' j = map_of dest j" by simp
  next
    assume "\<forall>e\<in>set dest. slug (snd e) = fst e"
    with a3 have "\<forall>e\<in>set dest1. slug (snd e) = fst e" by (rule mp)
    with i3 show "\<forall>e\<in>set dest'. slug (snd e) = fst e" by (rule mp)
  next
    from a4 i4 show "prefix log log'" by (rule prefix_order.trans)
  qed
qed

lemma mhas_iff: "mhas m j \<longleftrightarrow> j \<in> fst ` set m"
  by (simp add: mhas_def map_of_eq_None_iff)

text \<open>What a completed removal loop leaves.\<close>

lemma removalStep_done:
  assumes "removalStep resp k keyOf idOf src False e (dest, log) = (None, (dest', log'))"
    and "keyOf (snd e) = fst e"
  shows "set dest' \<subseteq> set dest
     \<and> (e \<in> set dest' \<longrightarrow> mhas src (fst e))
     \<and> (\<forall>j. mhas src j \<longrightarrow> map_of dest' j = map_of dest j)
     \<and> (\<forall>j w. map_of dest' j = Some w \<longrightarrow> map_of dest j = Some w)
     \<and> prefix log log'"
proof (cases "mhas dest (fst e) \<and> \<not> mhas src (keyOf (snd e))")
  case False
  with assms(1) have same: "dest' = dest" "log' = log"
    by (auto simp: removalStep_def split: if_splits)
  have "mhas src (fst e)" if "e \<in> set dest"
  proof -
    from that have "mhas dest (fst e)"
      by (simp add: mhas_iff)
    with False assms(2) show ?thesis by simp
  qed
  with same show ?thesis by simp
next
  case True
  with assms have d: "dest' = AList.delete (fst e) dest"
    and l: "log' = log @ [DeleteItem k (idOf (snd e))]"
    by (auto simp: removalStep_def Let_def split: option.splits if_splits)
  have sub: "set dest' \<subseteq> set dest"
    by (auto simp: d AList.delete_eq)
  have gone: "e \<notin> set dest'"
    by (cases e) (auto simp: d AList.delete_eq)
  have kept: "map_of dest' j = map_of dest j" if "mhas src j" for j
  proof -
    from that True assms(2) have "j \<noteq> fst e" by auto
    then show ?thesis by (simp add: d delete_conv')
  qed
  have was: "map_of dest j = Some w" if "map_of dest' j = Some w" for j w
    using that by (cases "j = fst e") (simp_all add: d delete_conv')
  have "prefix log log'" by (simp add: l)
  with sub gone kept was show ?thesis by blast
qed


lemma removals_done:
  assumes "forEach (removalStep resp k keyOf idOf src False) es (dest, log) =
      (None, (dest', log'))"
    and "\<forall>e\<in>set es. keyOf (snd e) = fst e"
  shows "set dest' \<subseteq> set dest
     \<and> (\<forall>e\<in>set es. e \<in> set dest' \<longrightarrow> mhas src (fst e))
     \<and> (\<forall>j. mhas src j \<longrightarrow> map_of dest' j = map_of dest j)
     \<and> (\<forall>j w. map_of dest' j = Some w \<longrightarrow> map_of dest j = Some w)
     \<and> prefix log log'"
  using assms
proof (induction es arbitrary: dest log)
  case Nil
  then show ?case by simp
next
  case (Cons e es)
  from forEach_Cons_None [OF Cons.prems(1)] obtain dest1 log1 where
    one: "removalStep resp k keyOf idOf src False e (dest, log) = (None, (dest1, log1))"
    and rest: "forEach (removalStep resp k keyOf idOf src False) es (dest1, log1) =
      (None, (dest', log'))"
    by auto
  from Cons.prems(2) have ke: "keyOf (snd e) = fst e" and kes: "\<forall>e\<in>set es. keyOf (snd e) = fst e"
    by simp_all
  note s1 = removalStep_done [OF one ke]
  note a1 = s1 [THEN conjunct1] and a2 = s1 [THEN conjunct2, THEN conjunct1]
    and a3 = s1 [THEN conjunct2, THEN conjunct2, THEN conjunct1]
    and a4 = s1 [THEN conjunct2, THEN conjunct2, THEN conjunct2, THEN conjunct1]
    and a5 = s1 [THEN conjunct2, THEN conjunct2, THEN conjunct2, THEN conjunct2]
  note ih = Cons.IH [OF rest kes]
  note i1 = ih [THEN conjunct1] and i2 = ih [THEN conjunct2, THEN conjunct1]
    and i3 = ih [THEN conjunct2, THEN conjunct2, THEN conjunct1]
    and i4 = ih [THEN conjunct2, THEN conjunct2, THEN conjunct2, THEN conjunct1]
    and i5 = ih [THEN conjunct2, THEN conjunct2, THEN conjunct2, THEN conjunct2]
  show ?case
  proof (intro conjI allI impI ballI)
    from i1 a1 show "set dest' \<subseteq> set dest" by (rule subset_trans)
  next
    fix e' assume m: "e' \<in> set (e # es)" and d: "e' \<in> set dest'"
    show "mhas src (fst e')"
    proof (cases "e' = e")
      case True
      from d i1 have "e' \<in> set dest1" by blast
      with a2 True show ?thesis by simp
    next
      case False
      with m have "e' \<in> set es" by simp
      with i2 d show ?thesis by blast
    qed
  next
    fix j assume "mhas src j"
    with a3 i3 show "map_of dest' j = map_of dest j" by simp
  next
    fix j w assume "map_of dest' j = Some w"
    with i4 have "map_of dest1 j = Some w" by blast
    with a4 show "map_of dest j = Some w" by blast
  next
    from a5 i5 show "prefix log log'" by (rule prefix_order.trans)
  qed
qed

text \<open>Loops that find nothing to do.\<close>

lemma additions_idle:
  assumes "\<forall>x\<in>set xs. \<exists>w. map_of dest (slug x) = Some w \<and> eq x w"
  shows "forEach (additionStep resp eq k dryRun) xs (dest, log) = (None, (dest, log))"
  using assms
proof (induction xs)
  case Nil
  show ?case by simp
next
  case (Cons x xs)
  then obtain w where "map_of dest (slug x) = Some w" "eq x w" by auto
  then have "additionStep resp eq k dryRun x (dest, log) = (None, (dest, log))"
    by (simp add: additionStep_def)
  with Cons show ?case by (simp add: andThen_def)
qed

lemma removals_idle:
  assumes "\<forall>e\<in>set es. mhas dest (fst e) \<longrightarrow> mhas src (keyOf (snd e))"
  shows "forEach (removalStep resp k keyOf idOf src dryRun) es (dest, log) = (None, (dest, log))"
  using assms
proof (induction es)
  case Nil
  show ?case by simp
next
  case (Cons e es)
  then have "removalStep resp k keyOf idOf src dryRun e (dest, log) = (None, (dest, log))"
    by (simp add: removalStep_def)
  with Cons show ?case by (simp add: andThen_def)
qed


lemma storeMap_echoed:
  assumes st: "storeMap resp c key (dest, log) = (None, (dest', log'))"
    and ans: "answered d resp src log c"
    and c: "c = CreateItem k (MapFields (WebflowMapInfo_generateFields d m base))
          \<or> c = UpdateItem k i (MapFields (WebflowMapInfo_generateFields d m base))"
    and m: "map_of src (rowyId m) = Some m"
  shows "\<exists>w. dest' = AList.update key w dest \<and> isWebflowMapInfoEqual d m w"
proof -
  have r: "w_rowyid (WebflowMapInfo_generateFields d m base) = rowyId m"
    by (simp add: WebflowMapInfo_generateFields_def)
  from ans c have e: "echoed d src (resp log c)
      (MapFields (WebflowMapInfo_generateFields d m base))"
    by (auto simp: answered_def)
  then obtain j where j: "resp log c = Some j"
    by (cases "resp log c") (simp_all add: echoed_def)
  from e j r m obtain w where w: "WebflowMapInfo_new j = Inr w" "isWebflowMapInfoEqual d m w"
    by (cases "WebflowMapInfo_new j") (simp_all add: echoed_def)
  from st j w have "dest' = AList.update key w dest"
    by (simp add: storeMap_def)
  with w show ?thesis by blast
qed

lemma storeMap_log: "storeMap resp c key (dest, log) = (r, (dest', log')) \<Longrightarrow> log' = log @ [c]"
  by (auto simp: storeMap_def split: option.splits sum.splits)

lemma queued_cong:
  "(\<And>m. m \<in> set xs \<Longrightarrow> map_of dest' (rowyId m) = map_of dest (rowyId m)) \<Longrightarrow>
     queued d dest' xs = queued d dest xs"
  unfolding queued_def by (induction xs) auto

lemma mapAddStep_done:
  assumes run: "mapAddStep d resp False m ((dest, log), ups) = (None, ((dest', log'), ups'))"
    and ans: "\<And>P c. prefix (P @ [c]) log' \<Longrightarrow> answered d resp src P c"
    and m: "map_of src (rowyId m) = Some m"
  shows "(case map_of dest (rowyId m) of
            Some w \<Rightarrow> dest' = dest \<and> ups' = ups @ [(isWebflowMapInfoEqual d m w, m, w)]
          | None \<Rightarrow> ups' = ups \<and>
              (\<exists>w. dest' = AList.update (rowyId m) w dest \<and> isWebflowMapInfoEqual d m w))
     \<and> prefix log log'"
proof (cases "map_of dest (rowyId m)")
  case (Some w)
  with run show ?thesis by (simp add: mapAddStep_def)
next
  case None
  let ?c = "CreateItem MapsCollection (MapFields (WebflowMapInfo_generateFields d m None))"
  from run None have st: "storeMap resp ?c (rowyId m) (dest, log) = (None, (dest', log'))"
    and u: "ups' = ups"
    by (auto simp: mapAddStep_def Let_def split: prod.splits)
  from storeMap_log [OF st] have lg: "log' = log @ [?c]" .
  then have "prefix (log @ [?c]) log'" by simp
  then have "answered d resp src log ?c" by (rule ans)
  from storeMap_echoed [OF st this _ m] have
    "\<exists>w. dest' = AList.update (rowyId m) w dest \<and> isWebflowMapInfoEqual d m w"
    by blast
  with None u lg show ?thesis by simp
qed


end
